theory Spec2Isabelle
  imports Main "HOL-Library.Char_ord" "HOL-Library.List_Lexorder"
begin

section \<open>Python values, exceptions and dictionaries\<close>

text \<open>
  The module \<^verbatim>\<open>salt/client/mixins.py\<close> is Python 2 code: strings are byte strings
  (\<^typ>\<open>string\<close>), compared byte by byte, a shorter prefix first, which is the order
  of \<^theory_text>\<open>List_Lexorder\<close> over \<^theory_text>\<open>Char_ord\<close>.

  An argument that may be \<^verbatim>\<open>None\<close> or a string (\<^verbatim>\<open>fun\<close>, \<^verbatim>\<open>arg\<close>, \<^verbatim>\<open>client\<close>,
  \<^verbatim>\<open>tag_prefix\<close>, \<^verbatim>\<open>__doc__\<close>) is a \<^typ>\<open>string option\<close>. Every other Python object
  (arguments, return values, the user, the low data) is a value of the type variable
  \<open>'v\<close>. The values stored in an event payload are strings, booleans or such objects.
\<close>

datatype 'v pyval = Str string | Bool bool | Obj 'v

text \<open>
  A raised object: whether it is an instance of \<^verbatim>\<open>Exception\<close> (what
  \<^verbatim>\<open>except Exception\<close> matches; \<^verbatim>\<open>SystemExit\<close>, \<^verbatim>\<open>KeyboardInterrupt\<close> and
  \<^verbatim>\<open>GeneratorExit\<close> derive from \<^verbatim>\<open>BaseException\<close> only), the name of its class
  (\<^verbatim>\<open>exc.__class__.__name__\<close>) and what \<^verbatim>\<open>str(exc)\<close> does: it returns a text, or it
  raises in its turn (in Python 2, a message that is a unicode string with a non-ASCII
  character makes \<^verbatim>\<open>str\<close> raise \<^verbatim>\<open>UnicodeEncodeError\<close>).
\<close>

datatype exn =
  Raised (isinstance_Exception: bool) (class_name: string) (str_exc: "exn + string")

text \<open>\<^verbatim>\<open>salt.exceptions.CommandExecutionError(err)\<close>, whose text is the message.\<close>

definition CommandExecutionError :: "string \<Rightarrow> exn" where
  "CommandExecutionError err = Raised True ''CommandExecutionError'' (Inr err)"

text \<open>\<^verbatim>\<open>bool(x)\<close> of a value that is \<^verbatim>\<open>None\<close> or a string.\<close>

fun truthy :: "string option \<Rightarrow> bool" where
  "truthy None = False"
| "truthy (Some s) = (s \<noteq> [])"

text \<open>\<^verbatim>\<open>'{0}'.format(x)\<close> of a value that is \<^verbatim>\<open>None\<close> or a string.\<close>

fun format_str :: "string option \<Rightarrow> string" where
  "format_str None = ''None''"
| "format_str (Some s) = s"

definition startswith :: "string \<Rightarrow> string \<Rightarrow> bool" where
  "startswith s p = (take (length p) s = p)"

definition endswith :: "string \<Rightarrow> string \<Rightarrow> bool" where
  "endswith s p = (length p \<le> length s \<and> drop (length s - length p) s = p)"

subsection \<open>\<^verbatim>\<open>repr\<close> of a byte string\<close>

definition hex_digit :: "nat \<Rightarrow> char" where
  "hex_digit d = (if d < 10 then char_of (48 + d) else char_of (87 + d))"

definition repr_char :: "char \<Rightarrow> char \<Rightarrow> string" where
  "repr_char quote c =
     (if c = quote \<or> c = CHR 0x5C then [CHR 0x5C, c]
      else if c = CHR 0x09 then [CHR 0x5C, CHR ''t'']
      else if c = CHR 0x0A then [CHR 0x5C, CHR ''n'']
      else if c = CHR 0x0D then [CHR 0x5C, CHR ''r'']
      else if (of_char c :: nat) < 32 \<or> (of_char c :: nat) \<ge> 127
        then [CHR 0x5C, CHR ''x'', hex_digit ((of_char c :: nat) div 16),
              hex_digit ((of_char c :: nat) mod 16)]
      else [c])"

definition repr_str :: "string \<Rightarrow> string" where
  "repr_str s =
     (let quote = (if CHR 0x27 \<in> set s \<and> CHR 0x22 \<notin> set s then CHR 0x22 else CHR 0x27)
      in quote # concat (map (repr_char quote) s) @ [quote])"

text \<open>\<^verbatim>\<open>'{0!r}'.format(x)\<close> of a value that is \<^verbatim>\<open>None\<close> or a string.\<close>

fun format_repr :: "string option \<Rightarrow> string" where
  "format_repr None = ''None''"
| "format_repr (Some s) = repr_str s"

subsection \<open>Dictionaries\<close>

text \<open>
  A dictionary of Python 2 keeps no order of its entries: it is a map from keys to
  values. \<open>dict\<close> is the constructor \<^verbatim>\<open>dict(pairs)\<close>, which stores the pairs one after
  the other, so that a later pair replaces an earlier one with the same key.
\<close>

type_synonym ('k, 'a) dict = "'k \<rightharpoonup> 'a"

definition setitem :: "('k, 'a) dict \<Rightarrow> 'k \<Rightarrow> 'a \<Rightarrow> ('k, 'a) dict" where
  "setitem d k v = d(k \<mapsto> v)"

definition dict :: "('k \<times> 'a) list \<Rightarrow> ('k, 'a) dict" where
  "dict pairs = foldl (\<lambda>d (k, v). setitem d k v) Map.empty pairs"

text \<open>\<^verbatim>\<open>d[k]\<close> raises \<^verbatim>\<open>KeyError\<close> for a missing key.\<close>

definition KeyError :: "string \<Rightarrow> exn" where
  "KeyError k = Raised True ''KeyError'' (Inr (repr_str k))"

definition getitem :: "(string, 'a) dict \<Rightarrow> string \<Rightarrow> exn + 'a" where
  "getitem d k = (case d k of None \<Rightarrow> Inl (KeyError k) | Some v \<Rightarrow> Inr v)"

text \<open>\<^verbatim>\<open>d.get(k, default)\<close>, given the entry of \<open>k\<close> if there is one.\<close>

definition get :: "'a option \<Rightarrow> 'a \<Rightarrow> 'a" where
  "get entry dflt = (case entry of None \<Rightarrow> dflt | Some v \<Rightarrow> v)"

text \<open>
  The registry \<^verbatim>\<open>self.functions\<close> is given by the list of its items, in the order in
  which the functions were registered. The keys of the items of a dictionary are
  distinct (\<open>is_dict\<close>). The code reads the registry through \<^verbatim>\<open>in\<close>, through
  \<^verbatim>\<open>self.functions[fun]\<close> (\<open>map_of\<close>) and through \<^verbatim>\<open>sorted(self.functions)\<close>, and
  none of them depends on the order of the list.
\<close>

type_synonym ('k, 'a) items = "('k \<times> 'a) list"

definition is_dict :: "('k, 'a) items \<Rightarrow> bool" where
  "is_dict d = distinct (map fst d)"

definition keys :: "('k, 'a) items \<Rightarrow> 'k list" where
  "keys d = map fst d"

text \<open>\<^verbatim>\<open>x in d\<close> for \<open>x\<close> that is \<^verbatim>\<open>None\<close> or a string; the keys of \<open>d\<close> are strings.\<close>

fun contains :: "(string, 'a) items \<Rightarrow> string option \<Rightarrow> bool" where
  "contains d None = False"
| "contains d (Some k) = (k \<in> set (keys d))"

section \<open>The imported helpers\<close>

text \<open>
  A registered function is a Python callable. Calling it with positional and keyword
  arguments performs some effects (of type \<open>'e\<close>, in order) and then returns a value or
  raises. \<open>doc\<close> is its \<^verbatim>\<open>__doc__\<close>.
\<close>

record ('v, 'e) func =
  call :: "'v list \<Rightarrow> (string \<times> 'v) list \<Rightarrow> 'e list \<times> (exn + 'v)"
  doc :: "string option"

text \<open>
  The dictionary returned by \<^verbatim>\<open>salt.utils.format_call\<close>; either key may be missing.
\<close>

record 'v f_call =
  args :: "'v list option"
  kwargs :: "(string \<times> 'v) list option"

text \<open>A keyword argument with a default: left out, or given.\<close>

datatype 'a kwarg = Default | Given 'a

text \<open>
  \<^verbatim>\<open>salt.utils.format_call\<close>, \<^verbatim>\<open>salt.utils.event.tagify\<close> and the text transformation
  of \<^verbatim>\<open>salt.utils.doc.strip_rst\<close> are defined in modules that are not among the source
  files verified here; they are parameters of the model.
  \<open>tagify suffix prefix base\<close> stands for \<^verbatim>\<open>tagify(suffix, prefix=..., base=...)\<close>.
\<close>

record ('v, 'e) salt_utils =
  format_call :: "('v, 'e) func \<Rightarrow> 'v \<Rightarrow> exn + 'v f_call"
  tagify :: "string \<Rightarrow> string option kwarg \<Rightarrow> string kwarg \<Rightarrow> string"
  strip_markup :: "string \<Rightarrow> string"

text \<open>
  Modelled from the spec: \<^verbatim>\<open>salt.utils.doc.strip_rst\<close> is not among the source files.
  The specification (4.1, 6) says that the documentation query returns a mapping from
  function name to its documentation text with the structured markup stripped from the
  text: the names are kept, each text is transformed, a missing text stays missing.
\<close>

definition strip_rst :: "('v, 'e) salt_utils \<Rightarrow> (string, string option) dict
    \<Rightarrow> (string, string option) dict" where
  "strip_rst su docs = (\<lambda>name. map_option (map_option (strip_markup su)) (docs name))"

section \<open>\<^verbatim>\<open>SyncClientMixin\<close>\<close>

text \<open>
  The attributes of a client object that the two mixins read. \<open>functions\<close> is the
  registry; the class default \<^verbatim>\<open>functions = ()\<close> is the empty one. The configuration
  \<^verbatim>\<open>self.opts\<close> supplies the socket directory and the transport. The methods
  \<^verbatim>\<open>_verify_fun\<close> and \<^verbatim>\<open>_proc_function\<close> are \<open>verify_fun\<close> and \<open>proc_function\<close>
  here, since a name cannot start with an underscore.
\<close>

record opts =
  sock_dir :: string
  transport :: string

record ('v, 'e) client =
  "functions" :: "(string, ('v, 'e) func) items"
  client :: "string option"
  tag_prefix :: "string option"
  opts :: opts

definition verify_fun :: "('v, 'e) client \<Rightarrow> string option \<Rightarrow> exn + unit" where
  "verify_fun self fun =
     (if \<not> truthy fun then Inl (CommandExecutionError ''Must specify a function to run'')
      else if \<not> contains (functions self) fun
        then Inl (CommandExecutionError (''Function '' @ format_repr fun @ '' is unavailable''))
      else Inr ())"

text \<open>
  \<^verbatim>\<open>low\<close> returns the effects performed and the value returned or the exception
  raised. \<^verbatim>\<open>self.functions[fun]\<close> is reached only after \<^verbatim>\<open>_verify_fun\<close> has accepted
  \<open>fun\<close>; the case \<open>None\<close> is written out all the same.
\<close>

definition low :: "('v, 'e) salt_utils \<Rightarrow> ('v, 'e) client \<Rightarrow> string option \<Rightarrow> 'v
    \<Rightarrow> 'e list \<times> (exn + 'v)" where
  "low su self fun low_data =
     (case verify_fun self fun of
        Inl e \<Rightarrow> ([], Inl e)
      | Inr _ \<Rightarrow>
          (case (case fun of None \<Rightarrow> Inl (Raised True ''KeyError'' (Inr ''None''))
                           | Some f \<Rightarrow> getitem (map_of (functions self)) f) of
             Inl e \<Rightarrow> ([], Inl e)
           | Inr l_fun \<Rightarrow>
               (case format_call su l_fun low_data of
                  Inl e \<Rightarrow> ([], Inl e)
                | Inr f_call \<Rightarrow> call l_fun (get (args f_call) []) (get (kwargs f_call) []))))"

text \<open>
  The list comprehension of \<^verbatim>\<open>get_docs\<close>:
  \<^verbatim>\<open>[(fun, self.functions[fun].__doc__) for fun in names]\<close>.
\<close>

fun doc_pairs :: "(string, ('v, 'e) func) items \<Rightarrow> string list
    \<Rightarrow> exn + (string \<times> string option) list" where
  "doc_pairs fs [] = Inr []"
| "doc_pairs fs (fun # funs) =
     (case getitem (map_of fs) fun of
        Inl e \<Rightarrow> Inl e
      | Inr f \<Rightarrow>
          (case doc_pairs fs funs of
             Inl e \<Rightarrow> Inl e
           | Inr ds \<Rightarrow> Inr ((fun, doc f) # ds)))"

text \<open>The list \<^verbatim>\<open>docs\<close> that \<^verbatim>\<open>get_docs\<close> builds before it calls \<^verbatim>\<open>dict\<close> on it.\<close>

definition docs_list :: "('v, 'e) client \<Rightarrow> string option
    \<Rightarrow> exn + (string \<times> string option) list" where
  "docs_list self arg =
     (case arg of
        Some a \<Rightarrow>
          if truthy arg then
            (let target_mod = (if \<not> endswith a ''.'' then a @ ''.'' else a)
             in doc_pairs (functions self)
                  (filter (\<lambda>fun. fun = a \<or> startswith fun target_mod)
                     (sort (keys (functions self)))))
          else doc_pairs (functions self) (sort (keys (functions self)))
      | None \<Rightarrow> doc_pairs (functions self) (sort (keys (functions self))))"

definition get_docs :: "('v, 'e) salt_utils \<Rightarrow> ('v, 'e) client \<Rightarrow> string option
    \<Rightarrow> exn + (string, string option) dict" where
  "get_docs su self arg =
     (case docs_list self arg of
        Inl e \<Rightarrow> Inl e
      | Inr docs \<Rightarrow> Inr (strip_rst su (dict docs)))"

section \<open>\<^verbatim>\<open>AsyncClientMixin\<close>\<close>

text \<open>
  What a worker does, in the order in which it does it: \<^verbatim>\<open>salt.utils.daemonize()\<close>,
  \<^verbatim>\<open>salt.utils.event.get_event(node, sock_dir, transport, opts=self.opts, listen=...)\<close>,
  \<^verbatim>\<open>event.fire_event(data, tag)\<close> with the payload as it is at that moment, an effect of
  the invoked function, and \<^verbatim>\<open>del event\<close>. The event object is the bus connection; it is
  held by the local variable \<^verbatim>\<open>event\<close> only, and the interpreter destroys it when the
  last reference to it goes, which is what the comment at \<^verbatim>\<open>del event\<close> relies on. The
  last action of a call is that its frame is dropped, after a return or after an
  exception has left the function, and with the frame every local that is still bound.
\<close>

datatype ('v, 'e) action =
    Daemonize
  | GetEvent string string string bool
  | FireEvent "string \<rightharpoonup> 'v pyval" string
  | Effect 'e
  | DelEvent
  | FrameDropped

text \<open>
  A run of \<^verbatim>\<open>_proc_function\<close> gives the actions performed and the exception that
  leaves the function, if one does. \<^verbatim>\<open>except Exception\<close> catches the instances of
  \<^verbatim>\<open>Exception\<close>; any other raised object propagates. The handler formats the summary,
  which evaluates \<^verbatim>\<open>str(exc)\<close>: when that raises, the new exception leaves the function
  from inside the handler.
\<close>

definition proc_function :: "('v, 'e) salt_utils \<Rightarrow> ('v, 'e) client \<Rightarrow> string option \<Rightarrow> 'v
    \<Rightarrow> 'v pyval \<Rightarrow> string \<Rightarrow> string \<Rightarrow> bool \<Rightarrow> ('v, 'e) action list \<times> exn option" where
  "proc_function su self fun low_data user tag jid fire_event =
     (let data = [''fun'' \<mapsto> Str (format_str (client self) @ ''.'' @ format_str fun),
                  ''jid'' \<mapsto> Str jid,
                  ''user'' \<mapsto> user];
          started = Daemonize #
            (if fire_event
             then [GetEvent ''master'' (sock_dir (opts self)) (transport (opts self)) False,
                   FireEvent data (tagify su ''new'' Default (Given tag))]
             else []);
          (effects, r) = low su self fun low_data;
          invoked = started @ map Effect effects
      in case (case r of
                 Inr ret \<Rightarrow> Inr (data(''return'' \<mapsto> Obj ret, ''success'' \<mapsto> Bool True))
               | Inl exc \<Rightarrow>
                   if isinstance_Exception exc
                   then (case str_exc exc of
                           Inl exc' \<Rightarrow> Inl exc'
                         | Inr text \<Rightarrow>
                             Inr (data(''return'' \<mapsto>
                                   Str (''Exception occurred in '' @ format_str (client self)
                                        @ '' '' @ format_str fun @ '': '' @ class_name exc
                                        @ '': '' @ text),
                                 ''success'' \<mapsto> Bool False)))
                   else Inl exc) of
           Inl exc \<Rightarrow> (invoked @ [FrameDropped], Some exc)
         | Inr data \<Rightarrow>
             (let data = data(''user'' \<mapsto> user)
              in (invoked @
                    (if fire_event
                     then [FireEvent data (tagify su ''ret'' Default (Given tag)), DelEvent]
                     else []) @ [FrameDropped],
                  None)))"

subsection \<open>The job id\<close>

text \<open>
  The value of \<^verbatim>\<open>datetime.datetime.now()\<close>. Python orders two such values as the
  tuples of their fields.
\<close>

record datetime =
  year :: nat
  month :: nat
  day :: nat
  hour :: nat
  minute :: nat
  second :: nat
  microsecond :: nat

definition date_fields :: "datetime \<Rightarrow> nat list" where
  "date_fields t = [year t, month t, day t, hour t, minute t, second t, microsecond t]"

definition later :: "datetime \<Rightarrow> datetime \<Rightarrow> bool" where
  "later t2 t1 = (date_fields t1 < date_fields t2)"

text \<open>
  The field ranges of a \<^verbatim>\<open>datetime\<close>; \<^verbatim>\<open>strftime\<close> of Python 2 refuses a year
  before 1900.
\<close>

definition datetime_ok :: "datetime \<Rightarrow> bool" where
  "datetime_ok t =
     (1900 \<le> year t \<and> year t \<le> 9999 \<and> 1 \<le> month t \<and> month t \<le> 12 \<and>
      1 \<le> day t \<and> day t \<le> 31 \<and> hour t < 24 \<and> minute t < 60 \<and> second t < 60 \<and>
      microsecond t < 1000000)"

text \<open>The last \<open>w\<close> decimal digits of \<open>n\<close>: \<open>n\<close> zero-padded to width \<open>w\<close> when it fits.\<close>

fun zero_padded :: "nat \<Rightarrow> nat \<Rightarrow> string" where
  "zero_padded 0 n = []"
| "zero_padded (Suc w) n = zero_padded w (n div 10) @ [char_of (48 + n mod 10)]"

text \<open>\<^verbatim>\<open>'{0:%Y%m%d%H%M%S%f}'.format(now)\<close>, for a value within the field ranges.\<close>

definition format_jid :: "datetime \<Rightarrow> string" where
  "format_jid now =
     zero_padded 4 (year now) @ zero_padded 2 (month now) @ zero_padded 2 (day now) @
     zero_padded 2 (hour now) @ zero_padded 2 (minute now) @ zero_padded 2 (second now) @
     zero_padded 6 (microsecond now)"

subsection \<open>\<^verbatim>\<open>async\<close>\<close>

text \<open>
  The \<^verbatim>\<open>multiprocessing.Process\<close> that \<^verbatim>\<open>async\<close> starts: its target is
  \<^verbatim>\<open>self._proc_function\<close>, these are its arguments. \<open>run\<close> is what the worker
  process executes.
\<close>

record 'v process =
  p_fun :: "string option"
  p_low :: 'v
  p_user :: "'v pyval"
  p_tag :: string
  p_jid :: string
  p_fire_event :: bool

definition run :: "('v, 'e) salt_utils \<Rightarrow> ('v, 'e) client \<Rightarrow> 'v process
    \<Rightarrow> ('v, 'e) action list \<times> exn option" where
  "run su self proc =
     proc_function su self (p_fun proc) (p_low proc) (p_user proc) (p_tag proc) (p_jid proc)
       (p_fire_event proc)"

text \<open>
  \<^verbatim>\<open>async\<close> reads the clock (\<open>now\<close>), starts the process and returns the dictionary
  \<^verbatim>\<open>{'tag': tag, 'jid': jid}\<close>; the model returns the started process beside it.
\<close>

definition async :: "('v, 'e) salt_utils \<Rightarrow> ('v, 'e) client \<Rightarrow> datetime \<Rightarrow> string option \<Rightarrow> 'v
    \<Rightarrow> 'v pyval \<Rightarrow> bool \<Rightarrow> 'v process \<times> (string, string) dict" where
  "async su self now fun low_data user fire_event =
     (let jid = format_jid now;
          tag = tagify su jid (Given (tag_prefix self)) Default;
          proc = \<lparr>p_fun = fun, p_low = low_data, p_user = user, p_tag = tag, p_jid = jid,
                   p_fire_event = fire_event\<rparr>
      in (proc, dict [(''tag'', tag), (''jid'', jid)]))"

section \<open>Observations on a run\<close>

text \<open>The events published in a run, oldest first: payload and topic.\<close>

fun events :: "('v, 'e) action list \<Rightarrow> ((string \<rightharpoonup> 'v pyval) \<times> string) list" where
  "events [] = []"
| "events (FireEvent data topic # as) = (data, topic) # events as"
| "events (_ # as) = events as"



text \<open>The documentation text that \<^verbatim>\<open>get_docs\<close> reports for a registered name.\<close>

definition doc_entry :: "('v, 'e) salt_utils \<Rightarrow> string \<times> ('v, 'e) func \<Rightarrow> string \<times> string option" where
  "doc_entry su item = (fst item, map_option (strip_markup su) (doc (snd item)))"

section \<open>A client for the closed examples\<close>

text \<open>
  Registered functions: \<^verbatim>\<open>lambda: 'pong'\<close>, which takes no argument; one that raises
  \<^verbatim>\<open>ValueError('bad value')\<close>; one that calls \<^verbatim>\<open>sys.exit(1)\<close>; one that raises an
  \<^verbatim>\<open>Exception\<close> whose message \<^verbatim>\<open>str\<close> cannot encode; and
  \<^verbatim>\<open>lambda text, suffix='': text + suffix\<close>.
\<close>

definition TypeError :: "string \<Rightarrow> exn" where
  "TypeError msg = Raised True ''TypeError'' (Inr msg)"

definition ping :: "(string, string) func" where
  "ping =
     \<lparr>call = (\<lambda>args kwargs.
         if args = [] \<and> kwargs = [] then ([''ping''], Inr ''pong'')
         else ([], Inl (TypeError ''<lambda>() takes no arguments''))),
      doc = Some ''Ping''\<rparr>"

definition failing :: "(string, string) func" where
  "failing =
     \<lparr>call = (\<lambda>args kwargs. ([''list''], Inl (Raised True ''ValueError'' (Inr ''bad value'')))),
      doc = None\<rparr>"

definition exiting :: "(string, string) func" where
  "exiting = \<lparr>call = (\<lambda>args kwargs. ([], Inl (Raised False ''SystemExit'' (Inr ''1'')))),
              doc = Some ''Exit''\<rparr>"

definition garbled :: "(string, string) func" where
  "garbled =
     \<lparr>call = (\<lambda>args kwargs.
         ([''garble''],
          Inl (Raised True ''Exception''
                 (Inl (Raised True ''UnicodeEncodeError''
                         (Inr ''ascii codec cannot encode character'')))))),
      doc = None\<rparr>"

definition echo :: "(string, string) func" where
  "echo =
     \<lparr>call = (\<lambda>args kwargs.
         case (args, kwargs) of
           ([text], []) \<Rightarrow> ([''echo''], Inr text)
         | ([text], [(name, suffix)]) \<Rightarrow>
             if name = ''suffix'' then ([''echo''], Inr (text @ suffix))
             else ([], Inl (TypeError ''<lambda>() got an unexpected keyword argument''))
         | _ \<Rightarrow> ([], Inl (TypeError ''<lambda>() takes at most 2 arguments''))),
      doc = Some ''Echo''\<rparr>"

text \<open>
  An instance of the imported helpers: the call specification always resolves to no
  arguments, a tag is its non-empty parts joined by a slash, the text is kept as it is.
\<close>

fun join :: "string \<Rightarrow> string list \<Rightarrow> string" where
  "join sep [] = []"
| "join sep [p] = p"
| "join sep (p # ps) = p @ sep @ join sep ps"

definition example_tagify :: "string \<Rightarrow> string option kwarg \<Rightarrow> string kwarg \<Rightarrow> string" where
  "example_tagify suffix prefix base =
     join ''/'' (filter (\<lambda>part. part \<noteq> [])
       [case base of Default \<Rightarrow> ''salt'' | Given b \<Rightarrow> b,
        case prefix of Given (Some p) \<Rightarrow> p | _ \<Rightarrow> [],
        suffix])"

definition example_utils :: "(string, string) salt_utils" where
  "example_utils =
     \<lparr>format_call = (\<lambda>f low_data. Inr \<lparr>args = None, kwargs = Some []\<rparr>),
      tagify = example_tagify,
      strip_markup = (\<lambda>text. text)\<rparr>"

definition example_client :: "(string, string) client" where
  "example_client =
     \<lparr>functions = [(''test.ping'', ping), (''pkgx'', ping), (''pkg.list'', failing),
                   (''pkg'', exiting)],
      client = Some ''runner'',
      tag_prefix = Some ''run'',
      opts = \<lparr>sock_dir = ''/var/run/salt/master'', transport = ''zeromq''\<rparr>\<rparr>"

text \<open>
  A second instance, whose call specification is resolved to the low data as the one
  positional argument and to a keyword argument \<^verbatim>\<open>suffix\<close>, and a client with the
  functions that take arguments or cannot be summarised.
\<close>

definition echo_utils :: "(string, string) salt_utils" where
  "echo_utils =
     \<lparr>format_call = (\<lambda>f low_data. Inr \<lparr>args = Some [low_data], kwargs = Some [(''suffix'', ''!'')]\<rparr>),
      tagify = example_tagify,
      strip_markup = (\<lambda>text. text)\<rparr>"

definition echo_client :: "(string, string) client" where
  "echo_client =
     \<lparr>functions = [(''test.echo'', echo), (''test.garbled'', garbled)],
      client = Some ''runner'',
      tag_prefix = Some ''run'',
      opts = \<lparr>sock_dir = ''/var/run/salt/master'', transport = ''zeromq''\<rparr>\<rparr>"

definition example_now :: datetime where
  "example_now = \<lparr>year = 2014, month = 3, day = 9, hour = 7, minute = 5, second = 59,
                   microsecond = 1234\<rparr>"

section \<open>Verification and invocation\<close>

lemma verify_fun_registered:
  "f \<noteq> [] \<Longrightarrow> map_of (functions self) f = Some l_fun \<Longrightarrow> verify_fun self (Some f) = Inr ()"
  by (auto simp: verify_fun_def keys_def dest!: map_of_SomeD intro: rev_image_eqI)

text \<open>
  Claim C3. For every name \<open>fun\<close> (a string or \<^verbatim>\<open>None\<close>), \<^verbatim>\<open>_verify_fun(fun)\<close> returns
  without error if and only if \<open>fun\<close> is a non-empty string that is a key of the
  registry. It raises the error \<^verbatim>\<open>'Must specify a function to run'\<close> when \<open>fun\<close> is
  \<^verbatim>\<open>None\<close> or empty, and the error \<^verbatim>\<open>'Function ... is unavailable'\<close> when \<open>fun\<close> is
  non-empty and not registered. It has no side effects: it only reads the registry and
  the name, and an invocation that it rejects has performed no effect.
\<close>

theorem verify_fun_spec:
  "(verify_fun self fun = Inr () \<longleftrightarrow>
      (\<exists>f. fun = Some f \<and> f \<noteq> [] \<and> f \<in> set (keys (functions self))))
   \<and> (fun = None \<or> fun = Some [] \<longrightarrow>
        verify_fun self fun = Inl (CommandExecutionError ''Must specify a function to run''))
   \<and> (\<forall>f. fun = Some f \<and> f \<noteq> [] \<and> f \<notin> set (keys (functions self)) \<longrightarrow>
        verify_fun self fun =
          Inl (CommandExecutionError (''Function '' @ repr_str f @ '' is unavailable'')))
   \<and> (verify_fun self fun \<noteq> Inr () \<longrightarrow> fst (low su self fun low_data) = [])"
  by (cases "fun") (auto simp: verify_fun_def low_def split: sum.splits)

text \<open>C3 at the example client: a registered, a missing, an empty and an unregistered name.\<close>

theorem verify_fun_spec_witness:
  "verify_fun example_client (Some ''test.ping'') = Inr ()
   \<and> verify_fun example_client None
       = Inl (CommandExecutionError ''Must specify a function to run'')
   \<and> verify_fun example_client (Some [])
       = Inl (CommandExecutionError ''Must specify a function to run'')
   \<and> ''nonexistent'' \<noteq> [] \<and> ''nonexistent'' \<notin> set (keys (functions example_client))
   \<and> verify_fun example_client (Some ''nonexistent'')
       = Inl (CommandExecutionError
            (''Function '' @ [CHR 0x27] @ ''nonexistent'' @ [CHR 0x27] @ '' is unavailable''))
   \<and> fst (low example_utils example_client (Some ''nonexistent'') ''low'') = []"
proof -
  have reg: "''test.ping'' \<in> set (keys (functions example_client))"
    and unreg: "''nonexistent'' \<notin> set (keys (functions example_client))"
    by (simp_all add: example_client_def keys_def)
  have r: "repr_str ''nonexistent'' = [CHR 0x27] @ ''nonexistent'' @ [CHR 0x27]"
    by (simp add: repr_str_def repr_char_def Let_def)
  have a: "verify_fun example_client (Some ''test.ping'') = Inr ()"
    using verify_fun_spec [of example_client "Some ''test.ping''"] reg by simp
  have b: "verify_fun example_client None
       = Inl (CommandExecutionError ''Must specify a function to run'')"
    using verify_fun_spec [of example_client None] by simp
  have c: "verify_fun example_client (Some [])
       = Inl (CommandExecutionError ''Must specify a function to run'')"
    using verify_fun_spec [of example_client "Some []"] by simp
  have d: "verify_fun example_client (Some ''nonexistent'')
       = Inl (CommandExecutionError (''Function '' @ repr_str ''nonexistent'' @ '' is unavailable''))"
    using verify_fun_spec [of example_client "Some ''nonexistent''"] unreg by simp
  have e: "fst (low example_utils example_client (Some ''nonexistent'') ''low'') = []"
    using verify_fun_spec [of example_client "Some ''nonexistent''" example_utils "''low''"] d
    by simp
  show ?thesis
    using a b c d e unreg r by simp
qed

text \<open>
  Claim C4. \<^verbatim>\<open>low(fun, low)\<close> verifies first, and a verification failure is what it
  raises, unchanged and before anything else is done. For a registered function and a
  call specification that \<^verbatim>\<open>format_call\<close> resolves, it is exactly the call of the
  registered callable on the resolved arguments, the positional ones and the keyword
  ones, an empty sequence or dictionary standing for a missing entry: the same effects,
  the same returned value (of any type), and the same exception if the callable raises.
\<close>

theorem low_spec:
  "(\<forall>e. verify_fun self fun = Inl e \<longrightarrow> low su self fun low_data = ([], Inl e))
   \<and> (\<forall>f l_fun f_call.
        (fun = Some f \<and> f \<noteq> [] \<and> map_of (functions self) f = Some l_fun \<and>
         format_call su l_fun low_data = Inr f_call) \<longrightarrow>
        low su self fun low_data =
          call l_fun (case args f_call of None \<Rightarrow> [] | Some a \<Rightarrow> a)
            (case kwargs f_call of None \<Rightarrow> [] | Some k \<Rightarrow> k))
   \<and> (\<forall>f l_fun a k.
        (fun = Some f \<and> f \<noteq> [] \<and> map_of (functions self) f = Some l_fun \<and>
         format_call su l_fun low_data = Inr \<lparr>args = Some a, kwargs = Some k\<rparr>) \<longrightarrow>
        low su self fun low_data = call l_fun a k)"
proof (intro conjI allI impI)
  fix e assume "verify_fun self fun = Inl e"
  then show "low su self fun low_data = ([], Inl e)"
    by (simp add: low_def)
next
  fix f l_fun f_call
  assume a: "fun = Some f \<and> f \<noteq> [] \<and> map_of (functions self) f = Some l_fun \<and>
        format_call su l_fun low_data = Inr f_call"
  then have "verify_fun self fun = Inr ()"
    using verify_fun_registered by blast
  with a show "low su self fun low_data =
          call l_fun (case args f_call of None \<Rightarrow> [] | Some a \<Rightarrow> a)
            (case kwargs f_call of None \<Rightarrow> [] | Some k \<Rightarrow> k)"
    by (simp add: low_def getitem_def get_def)
next
  fix f l_fun a k
  assume a: "fun = Some f \<and> f \<noteq> [] \<and> map_of (functions self) f = Some l_fun \<and>
        format_call su l_fun low_data = Inr \<lparr>args = Some a, kwargs = Some k\<rparr>"
  then have "verify_fun self fun = Inr ()"
    using verify_fun_registered by blast
  with a show "low su self fun low_data = call l_fun a k"
    by (simp add: low_def getitem_def get_def)
qed

text \<open>
  C4 at the example clients: a rejected name; \<^verbatim>\<open>lambda: 'pong'\<close>, which is called
  with no argument (with one it raises); a function whose result is made of the
  positional and the keyword argument that the call specification resolves to; a
  function that raises.
\<close>

theorem low_spec_witness:
  "verify_fun example_client None
     = Inl (CommandExecutionError ''Must specify a function to run'')
   \<and> low example_utils example_client None ''low''
     = ([], Inl (CommandExecutionError ''Must specify a function to run''))
   \<and> ''test.ping'' \<noteq> [] \<and> map_of (functions example_client) ''test.ping'' = Some ping
   \<and> format_call example_utils ping ''low'' = Inr \<lparr>args = None, kwargs = Some []\<rparr>
   \<and> low example_utils example_client (Some ''test.ping'') ''low'' = ([''ping''], Inr ''pong'')
   \<and> call ping [''low''] [] = ([], Inl (TypeError ''<lambda>() takes no arguments''))
   \<and> ''test.echo'' \<noteq> [] \<and> map_of (functions echo_client) ''test.echo'' = Some echo
   \<and> format_call echo_utils echo ''hello''
       = Inr \<lparr>args = Some [''hello''], kwargs = Some [(''suffix'', ''!'')]\<rparr>
   \<and> low echo_utils echo_client (Some ''test.echo'') ''hello'' = ([''echo''], Inr ''hello!'')
   \<and> low echo_utils echo_client (Some ''test.echo'') ''bye'' = ([''echo''], Inr ''bye!'')
   \<and> map_of (functions example_client) ''pkg.list'' = Some failing
   \<and> format_call example_utils failing ''low'' = Inr \<lparr>args = None, kwargs = Some []\<rparr>
   \<and> low example_utils example_client (Some ''pkg.list'') ''low''
     = ([''list''], Inl (Raised True ''ValueError'' (Inr ''bad value'')))"
proof -
  have v: "verify_fun example_client None
     = Inl (CommandExecutionError ''Must specify a function to run'')"
    by (simp add: verify_fun_def)
  have m1: "map_of (functions example_client) ''test.ping'' = Some ping"
    and m2: "map_of (functions example_client) ''pkg.list'' = Some failing"
    by (simp_all add: example_client_def)
  have m3: "map_of (functions echo_client) ''test.echo'' = Some echo"
    by (simp add: echo_client_def)
  have f: "format_call example_utils g ''low'' = Inr \<lparr>args = None, kwargs = Some []\<rparr>" for g
    by (simp add: example_utils_def)
  have g: "format_call echo_utils echo s
       = Inr \<lparr>args = Some [s], kwargs = Some [(''suffix'', ''!'')]\<rparr>" for s
    by (simp add: echo_utils_def)
  have a: "low example_utils example_client None ''low''
     = ([], Inl (CommandExecutionError ''Must specify a function to run''))"
    using low_spec [of example_client None example_utils "''low''"] v by simp
  have b: "low example_utils example_client (Some ''test.ping'') ''low'' = ([''ping''], Inr ''pong'')"
    using low_spec [of example_client "Some ''test.ping''" example_utils "''low''"] m1 f
    by (simp add: ping_def)
  have b': "call ping [''low''] [] = ([], Inl (TypeError ''<lambda>() takes no arguments''))"
    by (simp add: ping_def)
  have c: "low example_utils example_client (Some ''pkg.list'') ''low''
     = ([''list''], Inl (Raised True ''ValueError'' (Inr ''bad value'')))"
    using low_spec [of example_client "Some ''pkg.list''" example_utils "''low''"] m2 f
    by (simp add: failing_def)
  have d: "low echo_utils echo_client (Some ''test.echo'') s = ([''echo''], Inr (s @ ''!''))"
    for s
    using low_spec [of echo_client "Some ''test.echo''" echo_utils s] m3 g
    by (simp add: echo_def)
  show ?thesis
    using v m1 m2 m3 f g a b b' c d [of "''hello''"] d [of "''bye''"] by simp
qed

section \<open>The documentation query\<close>

lemma foldl_setitem:
  "foldl (\<lambda>d (k, v). setitem d k v) m ps = m ++ map_of (rev ps)"
proof (induction ps arbitrary: m)
  case Nil
  then show ?case by simp
next
  case (Cons p ps)
  obtain k v where p: "p = (k, v)" by (cases p)
  have "foldl (\<lambda>d (k, v). setitem d k v) m (p # ps)
      = foldl (\<lambda>d (k, v). setitem d k v) (m(k \<mapsto> v)) ps"
    by (simp add: p setitem_def)
  also have "\<dots> = m(k \<mapsto> v) ++ map_of (rev ps)"
    by (rule Cons.IH)
  also have "\<dots> = m ++ map_of (rev (p # ps))"
    unfolding p by (rule ext) (simp add: map_add_def split: option.split)
  finally show ?case .
qed

lemma dict_rev: "dict ps = map_of (rev ps)"
  unfolding dict_def by (simp only: foldl_setitem empty_map_add)

lemma map_of_rev_distinct:
  assumes "distinct (map fst ps)"
  shows "map_of (rev ps) = map_of ps"
proof -
  have "distinct (map fst (rev ps))"
    using assms by (simp add: rev_map [symmetric])
  then have "map_of (rev ps) = map_of ps \<longleftrightarrow> set (rev ps) = set ps"
    using assms by (rule map_of_inject_set)
  then show ?thesis by simp
qed

lemma dict_distinct: "distinct (map fst ps) \<Longrightarrow> dict ps = map_of ps"
  by (simp only: dict_rev map_of_rev_distinct)

lemma graph_dict: "distinct (map fst ps) \<Longrightarrow> Map.graph (dict ps) = set ps"
  by (simp only: dict_distinct graph_map_of_if_distinct_dom)

lemma dom_dict: "dom (dict ps) = fst ` set ps"
  by (simp only: dict_rev dom_map_of_conv_image_fst set_rev)

lemma graph_strip_rst:
  "Map.graph (strip_rst su docs) = (\<lambda>entry. (fst entry, map_option (strip_markup su) (snd entry))) ` Map.graph docs"
proof (intro set_eqI iffI)
  fix e :: "string \<times> string option"
  assume "e \<in> Map.graph (strip_rst su docs)"
  then obtain n d where e: "e = (n, d)" and "strip_rst su docs n = Some d"
    by (cases e) (auto dest: in_graphD)
  then obtain d' where "docs n = Some d'" and "d = map_option (strip_markup su) d'"
    by (auto simp: strip_rst_def)
  then have "(n, d') \<in> Map.graph docs" and "e = (fst (n, d'), map_option (strip_markup su) (snd (n, d')))"
    using e by (simp_all add: in_graphI)
  then show "e \<in> (\<lambda>entry. (fst entry, map_option (strip_markup su) (snd entry))) ` Map.graph docs"
    by (rule rev_image_eqI)
next
  fix e :: "string \<times> string option"
  assume "e \<in> (\<lambda>entry. (fst entry, map_option (strip_markup su) (snd entry))) ` Map.graph docs"
  then obtain n d' where "docs n = Some d'" and "e = (n, map_option (strip_markup su) d')"
    by (auto dest: in_graphD)
  then show "e \<in> Map.graph (strip_rst su docs)"
    by (simp add: in_graphI strip_rst_def)
qed

lemma dom_strip_rst: "dom (strip_rst su docs) = dom docs"
  by (auto simp: strip_rst_def dom_def)

lemma doc_pairs_registered:
  "set names \<subseteq> set (keys fs) \<Longrightarrow>
   doc_pairs fs names = Inr (map (\<lambda>n. (n, doc (the (map_of fs n)))) names)"
proof (induction names)
  case Nil
  then show ?case by simp
next
  case (Cons n names)
  then have "n \<in> fst ` set fs" by (simp add: keys_def)
  then obtain f where "map_of fs n = Some f"
    by (metis domD dom_map_of_conv_image_fst)
  with Cons show ?case by (simp add: getitem_def)
qed

lemma docs_list_all:
  assumes "\<not> truthy arg"
  shows "docs_list self arg
         = Inr (map (\<lambda>n. (n, doc (the (map_of (functions self) n))))
                  (sort (keys (functions self))))"
proof -
  have "docs_list self arg = doc_pairs (functions self) (sort (keys (functions self)))"
    using assms by (cases arg) (simp_all add: docs_list_def)
  then show ?thesis
    by (simp add: doc_pairs_registered)
qed

lemma docs_list_some:
  assumes "a \<noteq> []"
  shows "docs_list self (Some a)
         = Inr (map (\<lambda>n. (n, doc (the (map_of (functions self) n))))
                  (filter (\<lambda>n. n = a \<or> startswith n (if \<not> endswith a ''.'' then a @ ''.'' else a))
                     (sort (keys (functions self)))))"
proof -
  let ?names = "filter (\<lambda>n. n = a \<or> startswith n (if \<not> endswith a ''.'' then a @ ''.'' else a))
                     (sort (keys (functions self)))"
  have s: "set ?names \<subseteq> set (keys (functions self))"
    by auto
  have "docs_list self (Some a) = doc_pairs (functions self) ?names"
    using assms by (simp add: docs_list_def Let_def)
  then show ?thesis
    using doc_pairs_registered [OF s] by simp
qed

lemma keys_pairs: "keys (map (\<lambda>n. (n, g n)) names) = names"
  by (simp add: keys_def comp_def)

lemma sorted_names:
  "is_dict fs \<Longrightarrow> sorted_wrt (<) (filter P (sort (keys fs)))"
  by (simp add: sorted_wrt_filter strict_sorted_iff is_dict_def keys_def)

lemma entries_set:
  assumes "is_dict fs" and "set names = {n \<in> set (keys fs). P n}"
  shows "set (map (\<lambda>n. doc_entry su (n, the (map_of fs n))) names)
         = doc_entry su ` {item \<in> set fs. P (fst item)}"
proof -
  have m: "map_of fs n = Some f \<longleftrightarrow> (n, f) \<in> set fs" for n f
    using assms(1) by (simp add: is_dict_def)
  have "(\<lambda>n. (n, the (map_of fs n))) ` set names = {item \<in> set fs. P (fst item)}"
  proof (intro set_eqI iffI)
    fix item assume "item \<in> (\<lambda>n. (n, the (map_of fs n))) ` set names"
    then obtain n where n: "n \<in> set (keys fs)" "P n" "item = (n, the (map_of fs n))"
      using assms(2) by auto
    from n(1) obtain f where "(n, f) \<in> set fs" by (auto simp: keys_def)
    with m have "map_of fs n = Some f" by simp
    with n \<open>(n, f) \<in> set fs\<close> show "item \<in> {item \<in> set fs. P (fst item)}" by simp
  next
    fix item assume i: "item \<in> {item \<in> set fs. P (fst item)}"
    obtain n f where nf: "item = (n, f)" by (cases item)
    with i m have "map_of fs n = Some f" by simp
    moreover from i nf have "n \<in> set names"
      using assms(2) by (force simp: keys_def)
    ultimately show "item \<in> (\<lambda>n. (n, the (map_of fs n))) ` set names"
      using nf by force
  qed
  then have "doc_entry su ` ((\<lambda>n. (n, the (map_of fs n))) ` set names)
      = doc_entry su ` {item \<in> set fs. P (fst item)}"
    by (rule arg_cong)
  then show ?thesis
    by (simp add: image_image)
qed

lemma graph_docs:
  assumes "is_dict fs" and "distinct names" and "set names = {n \<in> set (keys fs). P n}"
  shows "Map.graph (strip_rst su (dict (map (\<lambda>n. (n, doc (the (map_of fs n)))) names)))
         = doc_entry su ` {item \<in> set fs. P (fst item)}"
proof -
  let ?pairs = "map (\<lambda>n. (n, doc (the (map_of fs n)))) names"
  have "distinct (map fst ?pairs)"
    using assms(2) by (simp add: comp_def)
  then have "Map.graph (dict ?pairs) = set ?pairs"
    by (rule graph_dict)
  then have "Map.graph (strip_rst su (dict ?pairs))
      = (\<lambda>entry. (fst entry, map_option (strip_markup su) (snd entry))) ` set ?pairs"
    by (simp only: graph_strip_rst)
  also have "\<dots> = set (map (\<lambda>n. doc_entry su (n, the (map_of fs n))) names)"
    by (simp add: image_image doc_entry_def)
  also have "\<dots> = doc_entry su ` {item \<in> set fs. P (fst item)}"
    using assms(1,3) by (rule entries_set)
  finally show ?thesis .
qed

lemma dom_docs:
  "dom (strip_rst su (dict (map (\<lambda>n. (n, g n)) names))) = set names"
  by (simp add: dom_strip_rst dom_dict image_image)

lemma chosen_names:
  "is_dict fs \<Longrightarrow> distinct (filter P (sort (keys fs)))
     \<and> set (filter P (sort (keys fs))) = {n \<in> set (keys fs). P n}"
  by (auto simp: is_dict_def keys_def)

lemma get_docs_registration_order:
  assumes "is_dict (functions self)" and "is_dict (functions other)"
    and "set (functions other) = set (functions self)"
  shows "docs_list other arg = docs_list self arg"
proof -
  have "distinct (map fst (functions other))" "distinct (map fst (functions self))"
    using assms(1,2) by (simp_all add: is_dict_def)
  then have m: "map_of (functions other) = map_of (functions self)"
    using assms(3) map_of_inject_set by blast
  have "set (keys (functions other)) = set (keys (functions self))"
    using assms(3) by (simp add: keys_def)
  moreover have "distinct (keys (functions other))" "distinct (keys (functions self))"
    using assms(1,2) by (simp_all add: is_dict_def keys_def)
  ultimately have k: "sort (keys (functions other)) = sort (keys (functions self))"
    using sorted_distinct_set_unique [of "sort (keys (functions other))" "sort (keys (functions self))"]
    by simp
  show ?thesis
  proof (cases "truthy arg")
    case True
    then obtain a where a: "arg = Some a" "a \<noteq> []" by (cases arg) auto
    show ?thesis
      unfolding a(1) docs_list_some [OF a(2)] m k ..
  next
    case False
    show ?thesis
      unfolding docs_list_all [OF False] m k ..
  qed
qed

lemma example_registry_is_dict: "is_dict (functions example_client)"
  by (simp add: is_dict_def example_client_def)

lemma example_sorted_keys:
  "sort (keys (functions example_client)) = [''pkg'', ''pkg.list'', ''pkgx'', ''test.ping'']"
  by (simp add: example_client_def keys_def less_eq_char_def)

lemma startswith_length:
  assumes "startswith n p"
  shows "length p \<le> length n"
proof -
  from assms have "take (length p) n = p" by (simp only: startswith_def)
  then have "length (take (length p) n) = length p" by (rule arg_cong)
  then have "min (length n) (length p) = length p" by (simp only: length_take)
  then show ?thesis by linarith
qed

lemma endswith_nonempty: "endswith p ''.'' \<Longrightarrow> p \<noteq> []"
  by (auto simp: endswith_def)

lemma butlast_not_selected:
  assumes "p \<noteq> []"
  shows "\<not> (butlast p = p \<or> startswith (butlast p) p)"
proof
  assume h: "butlast p = p \<or> startswith (butlast p) p"
  have l: "length (butlast p) < length p"
    using assms by simp
  from h show False
  proof
    assume "butlast p = p"
    then have "length (butlast p) = length p" by (rule arg_cong)
    with l show False by linarith
  next
    assume "startswith (butlast p) p"
    then have "length p \<le> length (butlast p)" by (rule startswith_length)
    with l show False by linarith
  qed
qed

lemma get_docs_selected:
  assumes "is_dict (functions self)" and "a \<noteq> []"
  shows "\<exists>docs. get_docs su self (Some a) = Inr docs
           \<and> Map.graph docs = doc_entry su `
                 {item \<in> set (functions self).
                    fst item = a \<or>
                    startswith (fst item) (if \<not> endswith a ''.'' then a @ ''.'' else a)}
           \<and> dom docs =
                 set (filter (\<lambda>n. n = a \<or> startswith n (if \<not> endswith a ''.'' then a @ ''.'' else a))
                        (sort (keys (functions self))))"
proof -
  let ?P = "\<lambda>n. n = a \<or> startswith n (if \<not> endswith a ''.'' then a @ ''.'' else a)"
  let ?names = "filter ?P (sort (keys (functions self)))"
  let ?docs = "strip_rst su (dict (map (\<lambda>n. (n, doc (the (map_of (functions self) n)))) ?names))"
  have g: "get_docs su self (Some a) = Inr ?docs"
    by (simp add: get_docs_def docs_list_some [OF assms(2)])
  have n: "distinct ?names" "set ?names = {n \<in> set (keys (functions self)). ?P n}"
    using chosen_names [OF assms(1), of ?P] by simp_all
  have s: "Map.graph ?docs = doc_entry su ` {item \<in> set (functions self). ?P (fst item)}"
    using assms(1) n by (rule graph_docs)
  have k: "dom ?docs = set ?names"
    by (rule dom_docs)
  show ?thesis
    by (rule exI [of _ ?docs]) (intro conjI g s k)
qed

lemma strip_rst_example: "strip_rst example_utils docs = docs"
proof
  fix name
  show "strip_rst example_utils docs name = docs name"
    by (cases "docs name") (simp_all add: strip_rst_def example_utils_def option.map_ident)
qed

lemma example_docs_list_all:
  "\<not> truthy arg \<Longrightarrow> docs_list example_client arg
     = Inr [(''pkg'', Some ''Exit''), (''pkg.list'', None), (''pkgx'', Some ''Ping''),
            (''test.ping'', Some ''Ping'')]"
  by (simp add: docs_list_all example_sorted_keys)
     (simp add: example_client_def ping_def failing_def exiting_def)

lemma example_docs_list_pkg:
  "docs_list example_client (Some ''pkg'') = Inr [(''pkg'', Some ''Exit''), (''pkg.list'', None)]"
  by (simp add: docs_list_some example_sorted_keys endswith_def startswith_def)
     (simp add: example_client_def failing_def exiting_def)

lemma example_docs_list_pkg_dot:
  "docs_list example_client (Some ''pkg.'') = Inr [(''pkg.list'', None)]"
  by (simp add: docs_list_some example_sorted_keys endswith_def startswith_def)
     (simp add: example_client_def failing_def)

lemma example_docs_empty:
  "get_docs example_utils example_client (Some [])
     = Inr [''pkg'' \<mapsto> Some ''Exit'', ''pkg.list'' \<mapsto> None, ''pkgx'' \<mapsto> Some ''Ping'',
            ''test.ping'' \<mapsto> Some ''Ping'']"
  by (simp add: get_docs_def example_docs_list_all strip_rst_example dict_def setitem_def)

lemma example_docs_pkg:
  "get_docs example_utils example_client (Some ''pkg'')
     = Inr [''pkg'' \<mapsto> Some ''Exit'', ''pkg.list'' \<mapsto> None]"
  by (simp add: get_docs_def example_docs_list_pkg strip_rst_example dict_def setitem_def)

lemma example_docs_pkg_dot:
  "get_docs example_utils example_client (Some ''pkg.'') = Inr [''pkg.list'' \<mapsto> None]"
  by (simp add: get_docs_def example_docs_list_pkg_dot strip_rst_example dict_def setitem_def)

text \<open>
  The dictionary that \<^verbatim>\<open>get_docs()\<close> returns for the example registry is the dictionary
  of its entries taken in registration order, which is not the sorted order: a
  dictionary of Python 2 keeps no order, so that nothing of the sorting is left in the
  value returned.
\<close>

theorem get_docs_unordered_counterexample:
  "get_docs example_utils example_client None
     = Inr (dict [(''test.ping'', Some ''Ping''), (''pkgx'', Some ''Ping''), (''pkg.list'', None),
                  (''pkg'', Some ''Exit'')])
   \<and> \<not> sorted [''test.ping'', ''pkgx'', ''pkg.list'', ''pkg'']"
proof -
  have "dict [(''pkg'', Some ''Exit''), (''pkg.list'', None), (''pkgx'', Some ''Ping''),
              (''test.ping'', Some ''Ping'')]
      = dict [(''test.ping'', Some ''Ping''), (''pkgx'', Some ''Ping''), (''pkg.list'', None),
              (''pkg'', Some ''Exit'')]"
    by (rule ext) (simp add: dict_def setitem_def)
  then have "get_docs example_utils example_client None
     = Inr (dict [(''test.ping'', Some ''Ping''), (''pkgx'', Some ''Ping''), (''pkg.list'', None),
                  (''pkg'', Some ''Exit'')])"
    by (simp add: get_docs_def example_docs_list_all strip_rst_example)
  moreover have "\<not> sorted [''test.ping'', ''pkgx'', ''pkg.list'', ''pkg'']"
    by (simp add: less_eq_char_def)
  ultimately show ?thesis by (rule conjI)
qed

text \<open>
  Claim C6, amended. For every registry (a dictionary), \<^verbatim>\<open>get_docs()\<close> takes the
  function names in strictly increasing lexicographic order when it builds its entries:
  the names of the list it builds are the sorted keys of the registry, and the names
  selected by an argument are in the same order. The dictionary returned is the
  dictionary of these entries. The order is by name and not by registration order: two
  registries with the same entries, registered in any order, give the same result.
\<close>

theorem get_docs_sorted:
  assumes "is_dict (functions self)"
  shows "(\<exists>docs. docs_list self None = Inr docs \<and> keys docs = sort (keys (functions self)))
    \<and> (\<exists>docs. docs_list self arg = Inr docs \<and> sorted_wrt (<) (keys docs)
           \<and> get_docs su self arg = Inr (strip_rst su (dict docs)))
    \<and> (is_dict (functions other) \<and> set (functions other) = set (functions self)
         \<longrightarrow> get_docs su other arg = get_docs su self arg)"
proof (intro conjI impI)
  show "\<exists>docs. docs_list self None = Inr docs \<and> keys docs = sort (keys (functions self))"
    by (simp add: docs_list_all keys_pairs)
next
  show "\<exists>docs. docs_list self arg = Inr docs \<and> sorted_wrt (<) (keys docs)
           \<and> get_docs su self arg = Inr (strip_rst su (dict docs))"
  proof (cases "truthy arg")
    case True
    then obtain a where "arg = Some a" "a \<noteq> []" by (cases arg) auto
    with assms show ?thesis
      by (simp add: get_docs_def docs_list_some keys_pairs sorted_names)
  next
    case False
    with sorted_names [OF assms, of "\<lambda>n. True"] show ?thesis
      by (simp add: get_docs_def docs_list_all keys_pairs)
  qed
next
  assume "is_dict (functions other) \<and> set (functions other) = set (functions self)"
  with assms have "docs_list other arg = docs_list self arg"
    using get_docs_registration_order [of self other arg] by blast
  then show "get_docs su other arg = get_docs su self arg"
    by (simp add: get_docs_def)
qed

text \<open>C6 at the example client, whose functions are not registered in sorted order.\<close>

theorem get_docs_sorted_witness:
  "is_dict (functions example_client)
   \<and> keys (functions example_client) = [''test.ping'', ''pkgx'', ''pkg.list'', ''pkg'']
   \<and> (\<exists>docs. docs_list example_client None = Inr docs
         \<and> keys docs = [''pkg'', ''pkg.list'', ''pkgx'', ''test.ping''])
   \<and> (\<exists>docs. docs_list example_client (Some ''pkg'') = Inr docs
         \<and> sorted_wrt (<) (keys docs)
         \<and> get_docs example_utils example_client (Some ''pkg'')
             = Inr (strip_rst example_utils (dict docs)))"
proof -
  note t = get_docs_sorted [OF example_registry_is_dict, of "Some ''pkg''" example_utils
      example_client, unfolded example_sorted_keys]
  have k: "keys (functions example_client) = [''test.ping'', ''pkgx'', ''pkg.list'', ''pkg'']"
    by (simp add: keys_def example_client_def)
  show ?thesis
    by (intro conjI example_registry_is_dict k t [THEN conjunct1]
        t [THEN conjunct2, THEN conjunct1])
qed

text \<open>
  The empty string does not end in a dot, and \<^verbatim>\<open>get_docs('')\<close> returns every entry
  (\<^verbatim>\<open>if arg:\<close> is false for it), among them \<^verbatim>\<open>test.ping\<close>, which is neither equal to the
  empty string nor starts with a dot.
\<close>

theorem get_docs_empty_prefix_counterexample:
  "\<not> endswith [] ''.''
   \<and> get_docs example_utils example_client (Some [])
       = Inr [''pkg'' \<mapsto> Some ''Exit'', ''pkg.list'' \<mapsto> None, ''pkgx'' \<mapsto> Some ''Ping'',
              ''test.ping'' \<mapsto> Some ''Ping'']
   \<and> \<not> (''test.ping'' = [] \<or> startswith ''test.ping'' ([] @ ''.''))"
  by (simp add: example_docs_empty endswith_def startswith_def)

text \<open>
  Claim C8, amended. For every registry and every non-empty argument \<open>p\<close> that does not
  end in a dot, \<^verbatim>\<open>get_docs(p)\<close> returns exactly the documentation entries of the
  registered names that are equal to \<open>p\<close> or start with \<open>p\<close> followed by a dot; a name
  such as \<open>p\<close> followed by \<^verbatim>\<open>x\<close> is excluded.
\<close>

theorem get_docs_prefix:
  assumes "is_dict (functions self)" and "p \<noteq> []" and "\<not> endswith p ''.''"
  shows "\<exists>docs. get_docs su self (Some p) = Inr docs
           \<and> Map.graph docs = doc_entry su `
                 {item \<in> set (functions self). fst item = p \<or> startswith (fst item) (p @ ''.'')}
           \<and> p @ ''x'' \<notin> dom docs"
proof -
  note sel = get_docs_selected [OF assms(1,2), of su, unfolded if_P [OF assms(3)]]
  from sel obtain docs where
    g: "get_docs su self (Some p) = Inr docs"
    and s: "Map.graph docs = doc_entry su `
        {item \<in> set (functions self). fst item = p \<or> startswith (fst item) (p @ ''.'')}"
    and k: "dom docs = set (filter (\<lambda>n. n = p \<or> startswith n (p @ ''.''))
                              (sort (keys (functions self))))"
    by (elim exE conjE)
  have x: "p @ ''x'' \<notin> dom docs"
    unfolding k by (simp add: startswith_def)
  show ?thesis
    by (rule exI [of _ docs]) (intro conjI g s x)
qed

text \<open>C8 at the example client: \<^verbatim>\<open>pkg\<close> and \<^verbatim>\<open>pkg.list\<close> are returned, \<^verbatim>\<open>pkgx\<close> is not.\<close>

theorem get_docs_prefix_witness:
  "is_dict (functions example_client) \<and> ''pkg'' \<noteq> [] \<and> \<not> endswith ''pkg'' ''.''
   \<and> (\<exists>docs. get_docs example_utils example_client (Some ''pkg'') = Inr docs
         \<and> Map.graph docs = doc_entry example_utils `
               {item \<in> set (functions example_client).
                  fst item = ''pkg'' \<or> startswith (fst item) (''pkg'' @ ''.'')}
         \<and> ''pkg'' @ ''x'' \<notin> dom docs)
   \<and> get_docs example_utils example_client (Some ''pkg'')
       = Inr [''pkg'' \<mapsto> Some ''Exit'', ''pkg.list'' \<mapsto> None]"
proof -
  have ne: "''pkg'' \<noteq> []" by simp
  have nd: "\<not> endswith ''pkg'' ''.''" by (simp add: endswith_def)
  show ?thesis
    by (intro conjI example_registry_is_dict ne nd example_docs_pkg
        get_docs_prefix [OF example_registry_is_dict ne nd])
qed

text \<open>
  Claim C10. For every argument \<open>p\<close> that ends with a dot, \<^verbatim>\<open>get_docs(p)\<close> returns
  exactly the entries whose name is equal to \<open>p\<close> or starts with \<open>p\<close>. The bare name
  (\<open>p\<close> without its dot) is excluded, whereas \<^verbatim>\<open>get_docs\<close> of the bare name includes it
  when it is registered.
\<close>

theorem get_docs_dotted:
  assumes "is_dict (functions self)" and "endswith p ''.''"
  shows "(\<exists>docs. get_docs su self (Some p) = Inr docs
           \<and> Map.graph docs = doc_entry su `
                 {item \<in> set (functions self). fst item = p \<or> startswith (fst item) p}
           \<and> butlast p \<notin> dom docs)
    \<and> (butlast p \<noteq> [] \<and> \<not> endswith (butlast p) ''.'' \<and> (butlast p, f) \<in> set (functions self)
        \<longrightarrow> (\<exists>docs. get_docs su self (Some (butlast p)) = Inr docs
              \<and> doc_entry su (butlast p, f) \<in> Map.graph docs))"
proof (intro conjI impI)
  have ne: "p \<noteq> []" using assms(2) by (rule endswith_nonempty)
  have nn: "\<not> \<not> endswith p ''.''" using assms(2) by simp
  note sel = get_docs_selected [OF assms(1) ne, of su, unfolded if_not_P [OF nn]]
  from sel obtain docs where
    g: "get_docs su self (Some p) = Inr docs"
    and s: "Map.graph docs = doc_entry su `
        {item \<in> set (functions self). fst item = p \<or> startswith (fst item) p}"
    and k: "dom docs = set (filter (\<lambda>n. n = p \<or> startswith n p) (sort (keys (functions self))))"
    by (elim exE conjE)
  have x: "butlast p \<notin> dom docs"
    unfolding k using butlast_not_selected [OF ne] by simp
  show "\<exists>docs. get_docs su self (Some p) = Inr docs
           \<and> Map.graph docs = doc_entry su `
                 {item \<in> set (functions self). fst item = p \<or> startswith (fst item) p}
           \<and> butlast p \<notin> dom docs"
    by (rule exI [of _ docs]) (intro conjI g s x)
next
  assume a: "butlast p \<noteq> [] \<and> \<not> endswith (butlast p) ''.'' \<and> (butlast p, f) \<in> set (functions self)"
  then have ne: "butlast p \<noteq> []" and it: "(butlast p, f) \<in> set (functions self)" by simp_all
  from get_docs_selected [OF assms(1) ne, of su] obtain docs where
    g: "get_docs su self (Some (butlast p)) = Inr docs"
    and s: "Map.graph docs = doc_entry su `
        {item \<in> set (functions self). fst item = butlast p \<or>
           startswith (fst item) (if \<not> endswith (butlast p) ''.'' then butlast p @ ''.'' else butlast p)}"
    by (elim exE conjE)
  have "doc_entry su (butlast p, f) \<in> Map.graph docs"
    unfolding s using it by (intro imageI) simp
  with g show "\<exists>docs. get_docs su self (Some (butlast p)) = Inr docs
              \<and> doc_entry su (butlast p, f) \<in> Map.graph docs"
    by (intro exI [of _ docs] conjI)
qed

text \<open>C10 at the example client: \<^verbatim>\<open>get_docs('pkg.')\<close> against \<^verbatim>\<open>get_docs('pkg')\<close>.\<close>

theorem get_docs_dotted_witness:
  "is_dict (functions example_client) \<and> endswith ''pkg.'' ''.''
   \<and> (\<exists>docs. get_docs example_utils example_client (Some ''pkg.'') = Inr docs
         \<and> Map.graph docs = doc_entry example_utils `
               {item \<in> set (functions example_client).
                  fst item = ''pkg.'' \<or> startswith (fst item) ''pkg.''}
         \<and> butlast ''pkg.'' \<notin> dom docs)
   \<and> butlast ''pkg.'' = ''pkg'' \<and> \<not> endswith (butlast ''pkg.'') ''.''
   \<and> (butlast ''pkg.'', exiting) \<in> set (functions example_client)
   \<and> (\<exists>docs. get_docs example_utils example_client (Some (butlast ''pkg.'')) = Inr docs
         \<and> doc_entry example_utils (butlast ''pkg.'', exiting) \<in> Map.graph docs)
   \<and> get_docs example_utils example_client (Some ''pkg.'') = Inr [''pkg.list'' \<mapsto> None]"
proof -
  have e: "endswith ''pkg.'' ''.''" by (simp add: endswith_def)
  have b: "butlast ''pkg.'' = ''pkg''" by simp
  have ne: "butlast ''pkg.'' \<noteq> []" by simp
  have nd: "\<not> endswith (butlast ''pkg.'') ''.''" by (simp add: endswith_def)
  have r: "(butlast ''pkg.'', exiting) \<in> set (functions example_client)"
    by (simp add: example_client_def)
  note t = get_docs_dotted [OF example_registry_is_dict e, of example_utils exiting]
  have t2: "\<exists>docs. get_docs example_utils example_client (Some (butlast ''pkg.'')) = Inr docs
         \<and> doc_entry example_utils (butlast ''pkg.'', exiting) \<in> Map.graph docs"
    using t [THEN conjunct2] ne nd r by (elim impE) (intro conjI)
  show ?thesis
    by (intro conjI example_registry_is_dict e b nd r t [THEN conjunct1] t2 example_docs_pkg_dot)
qed

section \<open>The job id of \<^verbatim>\<open>async\<close>\<close>

lemma length_zero_padded [simp]: "length (zero_padded w n) = w"
  by (induction w arbitrary: n) simp_all

lemma append_less_same_length:
  fixes a a' b b' :: "'a::linorder list"
  assumes "length a = length a'"
  shows "a @ b < a' @ b' \<longleftrightarrow> a < a' \<or> (a = a' \<and> b < b')"
  using assms by (induction a a' rule: list_induct2) auto

lemma digit_less:
  assumes "d < 10" and "e < 10"
  shows "(char_of (48 + d :: nat) < char_of (48 + e :: nat)) \<longleftrightarrow> d < e"
  using assms by (simp add: less_char_def)

lemma digit_eq:
  assumes "d < 10" and "e < 10"
  shows "(char_of (48 + d :: nat) = char_of (48 + e :: nat)) \<longleftrightarrow> d = e"
proof
  assume "char_of (48 + d) = char_of (48 + e)"
  then have "(of_char (char_of (48 + d)) :: nat) = of_char (char_of (48 + e))" by simp
  with assms show "d = e" by simp
qed simp

lemma div_mod_10_less:
  fixes m n :: nat
  shows "m < n \<longleftrightarrow> m div 10 < n div 10 \<or> (m div 10 = n div 10 \<and> m mod 10 < n mod 10)"
proof -
  have lin: "10 * qm + rm < 10 * qn + rn \<longleftrightarrow> qm < qn \<or> (qm = qn \<and> rm < rn)"
    if "rm < 10" "rn < 10" for qm rm qn rn :: nat
    using that by arith
  have "m < n \<longleftrightarrow> 10 * (m div 10) + m mod 10 < 10 * (n div 10) + n mod 10"
    by (simp only: mult_div_mod_eq)
  also have "\<dots> \<longleftrightarrow> m div 10 < n div 10 \<or> (m div 10 = n div 10 \<and> m mod 10 < n mod 10)"
    by (rule lin) simp_all
  finally show ?thesis .
qed

lemma div_mod_10_eq:
  fixes m n :: nat
  shows "m = n \<longleftrightarrow> m div 10 = n div 10 \<and> m mod 10 = n mod 10"
proof
  assume "m div 10 = n div 10 \<and> m mod 10 = n mod 10"
  then have "10 * (m div 10) + m mod 10 = 10 * (n div 10) + n mod 10" by simp
  then show "m = n" by (simp only: mult_div_mod_eq)
qed simp

lemma div_10_bound:
  fixes m :: nat
  assumes "m < 10 ^ Suc w"
  shows "m div 10 < 10 ^ w"
  using assms by (simp add: less_mult_imp_div_less mult.commute)

lemma zero_padded_eq:
  "m < 10 ^ w \<Longrightarrow> n < 10 ^ w \<Longrightarrow> zero_padded w m = zero_padded w n \<longleftrightarrow> m = n"
proof (induction w arbitrary: m n)
  case 0
  then show ?case by simp
next
  case (Suc w)
  have "m div 10 < 10 ^ w" "n div 10 < 10 ^ w"
    using Suc.prems by (simp_all only: div_10_bound)
  then have ih: "zero_padded w (m div 10) = zero_padded w (n div 10) \<longleftrightarrow> m div 10 = n div 10"
    by (rule Suc.IH)
  have d: "char_of (48 + m mod 10) = char_of (48 + n mod 10) \<longleftrightarrow> m mod 10 = n mod 10"
    by (rule digit_eq) simp_all
  have "zero_padded (Suc w) m = zero_padded (Suc w) n
      \<longleftrightarrow> zero_padded w (m div 10) = zero_padded w (n div 10)
          \<and> char_of (48 + m mod 10) = char_of (48 + n mod 10)"
    by simp
  also have "\<dots> \<longleftrightarrow> m div 10 = n div 10 \<and> m mod 10 = n mod 10"
    by (simp only: ih d)
  also have "\<dots> \<longleftrightarrow> m = n"
    by (rule div_mod_10_eq [symmetric])
  finally show ?case .
qed

lemma zero_padded_less:
  "m < 10 ^ w \<Longrightarrow> n < 10 ^ w \<Longrightarrow> zero_padded w m < zero_padded w n \<longleftrightarrow> m < n"
proof (induction w arbitrary: m n)
  case 0
  then show ?case by simp
next
  case (Suc w)
  have b: "m div 10 < 10 ^ w" "n div 10 < 10 ^ w"
    using Suc.prems by (simp_all only: div_10_bound)
  then have ih: "zero_padded w (m div 10) < zero_padded w (n div 10) \<longleftrightarrow> m div 10 < n div 10"
    by (rule Suc.IH)
  have e: "zero_padded w (m div 10) = zero_padded w (n div 10) \<longleftrightarrow> m div 10 = n div 10"
    using b by (rule zero_padded_eq)
  have d: "char_of (48 + m mod 10) < char_of (48 + n mod 10) \<longleftrightarrow> m mod 10 < n mod 10"
    by (rule digit_less) simp_all
  have "zero_padded (Suc w) m < zero_padded (Suc w) n
      \<longleftrightarrow> zero_padded w (m div 10) < zero_padded w (n div 10)
          \<or> (zero_padded w (m div 10) = zero_padded w (n div 10)
              \<and> char_of (48 + m mod 10) < char_of (48 + n mod 10))"
    by (simp add: append_less_same_length)
  also have "\<dots> \<longleftrightarrow> m div 10 < n div 10 \<or> (m div 10 = n div 10 \<and> m mod 10 < n mod 10)"
    by (simp only: ih e d)
  also have "\<dots> \<longleftrightarrow> m < n"
    by (rule div_mod_10_less [symmetric])
  finally show ?case .
qed

lemma datetime_ok_bounds:
  assumes "datetime_ok t"
  shows "year t < 10 ^ 4" "month t < 10 ^ 2" "day t < 10 ^ 2" "hour t < 10 ^ 2"
    "minute t < 10 ^ 2" "second t < 10 ^ 2" "microsecond t < 10 ^ 6"
  using assms by (simp_all add: datetime_ok_def)

lemma format_jid_less:
  assumes "datetime_ok t1" and "datetime_ok t2"
  shows "format_jid t1 < format_jid t2 \<longleftrightarrow> date_fields t1 < date_fields t2"
proof -
  note b1 = datetime_ok_bounds [OF assms(1)]
  note b2 = datetime_ok_bounds [OF assms(2)]
  note lt = zero_padded_less [OF b1(1) b2(1)] zero_padded_less [OF b1(2) b2(2)]
    zero_padded_less [OF b1(3) b2(3)] zero_padded_less [OF b1(4) b2(4)]
    zero_padded_less [OF b1(5) b2(5)] zero_padded_less [OF b1(6) b2(6)]
    zero_padded_less [OF b1(7) b2(7)]
  note eq = zero_padded_eq [OF b1(1) b2(1)] zero_padded_eq [OF b1(2) b2(2)]
    zero_padded_eq [OF b1(3) b2(3)] zero_padded_eq [OF b1(4) b2(4)]
    zero_padded_eq [OF b1(5) b2(5)] zero_padded_eq [OF b1(6) b2(6)]
  show ?thesis
    unfolding format_jid_def date_fields_def
    by (simp add: append_less_same_length lt eq del: zero_padded.simps)
qed

lemma async_jid:
  "getitem (snd (async su self now fun low_data user fire_event)) ''jid'' = Inr (format_jid now)"
  by (simp add: async_def Let_def dict_def setitem_def getitem_def)

lemma example_now_ok: "datetime_ok example_now"
  by (simp add: datetime_ok_def example_now_def)

lemma digit_chars:
  "char_of (48::nat) = CHR ''0''" "char_of (49::nat) = CHR ''1''" "char_of (50::nat) = CHR ''2''"
  "char_of (51::nat) = CHR ''3''" "char_of (52::nat) = CHR ''4''" "char_of (53::nat) = CHR ''5''"
  "char_of (54::nat) = CHR ''6''" "char_of (55::nat) = CHR ''7''" "char_of (56::nat) = CHR ''8''"
  "char_of (57::nat) = CHR ''9''"
  by code_simp+

lemma zero_padded_numeral:
  "zero_padded (numeral k) n
   = zero_padded (pred_numeral k) (n div 10) @ [char_of (48 + n mod 10)]"
  using zero_padded.simps(2) [of "pred_numeral k" n] by (simp only: numeral_eq_Suc [symmetric])

lemma example_format_jid: "format_jid example_now = ''20140309070559001234''"
  by (simp add: format_jid_def example_now_def zero_padded_numeral digit_chars)

text \<open>
  Claim C5. The job id that \<^verbatim>\<open>async\<close> returns is the clock reading formatted as
  \<^verbatim>\<open>%Y%m%d%H%M%S%f\<close>. For two calls whose clock readings are values within the field
  ranges of a \<^verbatim>\<open>datetime\<close>: if the second reading is strictly later than the first, the
  second job id is a strictly greater string; if the two readings are the same down to
  the microsecond, the two job ids are identical, whatever the other arguments are.
\<close>

theorem async_jid_monotone:
  assumes "datetime_ok t1" and "datetime_ok t2"
  shows "(later t2 t1 \<longrightarrow>
           (\<exists>jid1 jid2.
              getitem (snd (async su self t1 fun1 low1 user1 fire1)) ''jid'' = Inr jid1 \<and>
              getitem (snd (async su self t2 fun2 low2 user2 fire2)) ''jid'' = Inr jid2 \<and>
              jid1 < jid2))
    \<and> (date_fields t1 = date_fields t2 \<longrightarrow>
           getitem (snd (async su self t1 fun1 low1 user1 fire1)) ''jid''
           = getitem (snd (async su self t2 fun2 low2 user2 fire2)) ''jid'')"
proof (intro conjI impI)
  assume "later t2 t1"
  then have "format_jid t1 < format_jid t2"
    using format_jid_less [OF assms] by (simp add: later_def)
  then have j: "format_jid t1 < format_jid t2" .
  show "\<exists>jid1 jid2.
              getitem (snd (async su self t1 fun1 low1 user1 fire1)) ''jid'' = Inr jid1 \<and>
              getitem (snd (async su self t2 fun2 low2 user2 fire2)) ''jid'' = Inr jid2 \<and>
              jid1 < jid2"
  proof (rule exI [of _ "format_jid t1"], rule exI [of _ "format_jid t2"], intro conjI)
    show "getitem (snd (async su self t1 fun1 low1 user1 fire1)) ''jid'' = Inr (format_jid t1)"
      by (rule async_jid)
    show "getitem (snd (async su self t2 fun2 low2 user2 fire2)) ''jid'' = Inr (format_jid t2)"
      by (rule async_jid)
    show "format_jid t1 < format_jid t2"
      by (rule j)
  qed
next
  assume "date_fields t1 = date_fields t2"
  then have "format_jid t1 = format_jid t2"
    by (simp add: date_fields_def format_jid_def)
  then show "getitem (snd (async su self t1 fun1 low1 user1 fire1)) ''jid''
           = getitem (snd (async su self t2 fun2 low2 user2 fire2)) ''jid''"
    by (simp only: async_jid)
qed

text \<open>C5 at two readings one microsecond apart, and at one reading taken twice.\<close>

theorem async_jid_monotone_witness:
  "datetime_ok example_now \<and> datetime_ok (example_now\<lparr>microsecond := 1235\<rparr>)
   \<and> later (example_now\<lparr>microsecond := 1235\<rparr>) example_now
   \<and> (\<exists>jid1 jid2.
        getitem (snd (async example_utils example_client example_now
                        (Some ''test.ping'') ''low'' (Str ''UNKNOWN'') True)) ''jid'' = Inr jid1 \<and>
        getitem (snd (async example_utils example_client (example_now\<lparr>microsecond := 1235\<rparr>)
                        (Some ''pkg'') ''low'' (Str ''root'') False)) ''jid'' = Inr jid2 \<and>
        jid1 < jid2)
   \<and> date_fields example_now = date_fields example_now
   \<and> getitem (snd (async example_utils example_client example_now
                        (Some ''test.ping'') ''low'' (Str ''UNKNOWN'') True)) ''jid''
     = getitem (snd (async example_utils example_client example_now
                        (Some ''pkg'') ''low'' (Str ''root'') False)) ''jid''
   \<and> getitem (snd (async example_utils example_client example_now
                        (Some ''test.ping'') ''low'' (Str ''UNKNOWN'') True)) ''jid''
     = Inr ''20140309070559001234''"
proof -
  have ok2: "datetime_ok (example_now\<lparr>microsecond := 1235\<rparr>)"
    by (simp add: datetime_ok_def example_now_def)
  have l: "later (example_now\<lparr>microsecond := 1235\<rparr>) example_now"
    by (simp add: later_def date_fields_def example_now_def)
  have a: "\<exists>jid1 jid2.
        getitem (snd (async example_utils example_client example_now
                        (Some ''test.ping'') ''low'' (Str ''UNKNOWN'') True)) ''jid'' = Inr jid1 \<and>
        getitem (snd (async example_utils example_client (example_now\<lparr>microsecond := 1235\<rparr>)
                        (Some ''pkg'') ''low'' (Str ''root'') False)) ''jid'' = Inr jid2 \<and>
        jid1 < jid2"
    using async_jid_monotone [OF example_now_ok ok2, THEN conjunct1] l by (rule mp)
  have b: "getitem (snd (async example_utils example_client example_now
                        (Some ''test.ping'') ''low'' (Str ''UNKNOWN'') True)) ''jid''
     = getitem (snd (async example_utils example_client example_now
                        (Some ''pkg'') ''low'' (Str ''root'') False)) ''jid''"
    using async_jid_monotone [OF example_now_ok example_now_ok, THEN conjunct2] refl by (rule mp)
  have c: "getitem (snd (async example_utils example_client example_now
                        (Some ''test.ping'') ''low'' (Str ''UNKNOWN'') True)) ''jid''
     = Inr ''20140309070559001234''"
    by (simp only: async_jid example_format_jid)
  show ?thesis
    by (intro conjI example_now_ok ok2 l a refl b c)
qed

section \<open>The worker and the dispatcher\<close>

lemma events_append: "events (xs @ ys) = events xs @ events ys"
  by (induction xs rule: events.induct) simp_all

lemma events_effects: "events (map Effect es) = []"
  by (induction es) simp_all




lemma proc_function_caught:
  assumes "low su self fun low_data = (effects, Inl exc)"
    and "isinstance_Exception exc" and "str_exc exc = Inr msg"
    and "start = [''fun'' \<mapsto> Str (format_str (client self) @ ''.'' @ format_str fun),
                  ''jid'' \<mapsto> Str jid, ''user'' \<mapsto> user]"
  shows "proc_function su self fun low_data user tag jid fire_event =
     ((Daemonize #
        (if fire_event
         then [GetEvent ''master'' (sock_dir (opts self)) (transport (opts self)) False,
               FireEvent start (tagify su ''new'' Default (Given tag))]
         else [])) @
      map Effect effects @
      (if fire_event
       then [FireEvent
               (start(''return'' \<mapsto>
                        Str (''Exception occurred in '' @ format_str (client self) @ '' ''
                             @ format_str fun @ '': '' @ class_name exc @ '': '' @ msg),
                      ''success'' \<mapsto> Bool False, ''user'' \<mapsto> user))
               (tagify su ''ret'' Default (Given tag)),
             DelEvent]
       else []) @ [FrameDropped],
      None)"
  using assms(1,2,3) unfolding assms(4)
  by (simp add: proc_function_def Let_def)

lemma proc_function_escapes:
  assumes "low su self fun low_data = (effects, Inl exc)" and "\<not> isinstance_Exception exc"
  shows "proc_function su self fun low_data user tag jid fire_event =
     ((Daemonize #
        (if fire_event
         then [GetEvent ''master'' (sock_dir (opts self)) (transport (opts self)) False,
               FireEvent [''fun'' \<mapsto> Str (format_str (client self) @ ''.'' @ format_str fun),
                          ''jid'' \<mapsto> Str jid, ''user'' \<mapsto> user]
                 (tagify su ''new'' Default (Given tag))]
         else [])) @
      map Effect effects @ [FrameDropped],
      Some exc)"
  using assms by (simp add: proc_function_def Let_def)

lemma proc_function_handler_fails:
  assumes "low su self fun low_data = (effects, Inl exc)"
    and "isinstance_Exception exc" and "str_exc exc = Inl exc'"
  shows "proc_function su self fun low_data user tag jid fire_event =
     ((Daemonize #
        (if fire_event
         then [GetEvent ''master'' (sock_dir (opts self)) (transport (opts self)) False,
               FireEvent [''fun'' \<mapsto> Str (format_str (client self) @ ''.'' @ format_str fun),
                          ''jid'' \<mapsto> Str jid, ''user'' \<mapsto> user]
                 (tagify su ''new'' Default (Given tag))]
         else [])) @
      map Effect effects @ [FrameDropped],
      Some exc')"
  using assms by (simp add: proc_function_def Let_def)




lemma example_low_failing:
  "low example_utils example_client (Some ''pkg.list'') ''low''
   = ([''list''], Inl (Raised True ''ValueError'' (Inr ''bad value'')))"
  by (simp add: low_def verify_fun_def keys_def getitem_def get_def example_client_def
      example_utils_def failing_def)

lemma example_low_exiting:
  "low example_utils example_client (Some ''pkg'') ''low''
   = ([], Inl (Raised False ''SystemExit'' (Inr ''1'')))"
  by (simp add: low_def verify_fun_def keys_def getitem_def get_def example_client_def
      example_utils_def exiting_def)

lemma example_low_garbled:
  "low echo_utils echo_client (Some ''test.garbled'') ''low''
   = ([''garble''],
      Inl (Raised True ''Exception''
             (Inl (Raised True ''UnicodeEncodeError''
                     (Inr ''ascii codec cannot encode character'')))))"
  by (simp add: low_def verify_fun_def keys_def getitem_def get_def echo_client_def
      echo_utils_def garbled_def)

lemma example_topics:
  "tagify example_utils ''new'' Default (Given ''salt/run/1'') = ''salt/run/1/new''"
  "tagify example_utils ''ret'' Default (Given ''salt/run/1'') = ''salt/run/1/ret''"
  "tagify echo_utils ''new'' Default (Given ''salt/run/1'') = ''salt/run/1/new''"
  by (simp_all add: example_utils_def echo_utils_def example_tagify_def)

lemma example_run_exiting:
  "proc_function example_utils example_client (Some ''pkg'') ''low'' (Str ''UNKNOWN'')
     ''salt/run/1'' ''1'' True
   = ([Daemonize,
       GetEvent ''master'' ''/var/run/salt/master'' ''zeromq'' False,
       FireEvent [''fun'' \<mapsto> Str ''runner.pkg'', ''jid'' \<mapsto> Str ''1'',
                  ''user'' \<mapsto> Str ''UNKNOWN''] ''salt/run/1/new'',
       FrameDropped],
      Some (Raised False ''SystemExit'' (Inr ''1'')))"
  using proc_function_escapes [OF example_low_exiting, where fire_event = True
      and tag = "''salt/run/1''" and jid = "''1''" and user = "Str ''UNKNOWN''"]
  by (simp add: example_topics) (simp add: example_client_def)

text \<open>
  The run of the function whose exception \<^verbatim>\<open>str\<close> cannot render: the exception is
  caught, the handler raises \<^verbatim>\<open>UnicodeEncodeError\<close>, and the run ends after the start
  event.
\<close>

lemma example_run_garbled:
  "proc_function echo_utils echo_client (Some ''test.garbled'') ''low'' (Str ''UNKNOWN'')
     ''salt/run/1'' ''1'' True
   = ([Daemonize,
       GetEvent ''master'' ''/var/run/salt/master'' ''zeromq'' False,
       FireEvent [''fun'' \<mapsto> Str ''runner.test.garbled'', ''jid'' \<mapsto> Str ''1'',
                  ''user'' \<mapsto> Str ''UNKNOWN''] ''salt/run/1/new'',
       Effect ''garble'',
       FrameDropped],
      Some (Raised True ''UnicodeEncodeError'' (Inr ''ascii codec cannot encode character'')))"
proof -
  have i: "isinstance_Exception (Raised True ''Exception''
             (Inl (Raised True ''UnicodeEncodeError''
                     (Inr ''ascii codec cannot encode character''))))"
    by simp
  have s: "str_exc (Raised True ''Exception''
             (Inl (Raised True ''UnicodeEncodeError''
                     (Inr ''ascii codec cannot encode character''))))
      = Inl (Raised True ''UnicodeEncodeError'' (Inr ''ascii codec cannot encode character''))"
    by simp
  show ?thesis
    using proc_function_handler_fails [OF example_low_garbled i s, where fire_event = True
      and tag = "''salt/run/1''" and jid = "''1''" and user = "Str ''UNKNOWN''"]
    by (simp add: example_topics) (simp add: echo_client_def)
qed

lemma example_run_failing:
  "proc_function example_utils example_client (Some ''pkg.list'') ''low'' (Str ''UNKNOWN'')
     ''salt/run/1'' ''1'' True
   = ([Daemonize,
       GetEvent ''master'' ''/var/run/salt/master'' ''zeromq'' False,
       FireEvent [''fun'' \<mapsto> Str ''runner.pkg.list'', ''jid'' \<mapsto> Str ''1'',
                  ''user'' \<mapsto> Str ''UNKNOWN''] ''salt/run/1/new'',
       Effect ''list'',
       FireEvent [''fun'' \<mapsto> Str ''runner.pkg.list'', ''jid'' \<mapsto> Str ''1'',
                  ''user'' \<mapsto> Str ''UNKNOWN'',
                  ''return'' \<mapsto>
                     Str ''Exception occurred in runner pkg.list: ValueError: bad value'',
                  ''success'' \<mapsto> Bool False,
                  ''user'' \<mapsto> Str ''UNKNOWN''] ''salt/run/1/ret'',
       DelEvent,
       FrameDropped],
      None)"
  by (simp add: proc_function_def example_low_failing example_topics)
     (simp add: example_client_def)


lemma low_unverified:
  assumes "verify_fun self fun \<noteq> Inr ()"
  shows "\<exists>err. low su self fun low_data = ([], Inl (CommandExecutionError err))"
proof (cases "truthy fun")
  case False
  then have "low su self fun low_data
      = ([], Inl (CommandExecutionError ''Must specify a function to run''))"
    by (simp add: low_def verify_fun_def)
  then show ?thesis by (rule exI)
next
  case True
  with assms have "\<not> contains (functions self) fun"
    by (simp add: verify_fun_def split: if_splits)
  with True have "low su self fun low_data
      = ([], Inl (CommandExecutionError (''Function '' @ format_repr fun @ '' is unavailable'')))"
    by (simp add: low_def verify_fun_def)
  then show ?thesis by (rule exI)
qed

lemma async_result:
  "async su self now fun low_data user fire_event
   = (\<lparr>p_fun = fun, p_low = low_data, p_user = user,
       p_tag = tagify su (format_jid now) (Given (tag_prefix self)) Default,
       p_jid = format_jid now, p_fire_event = fire_event\<rparr>,
      [''tag'' \<mapsto> tagify su (format_jid now) (Given (tag_prefix self)) Default,
       ''jid'' \<mapsto> format_jid now])"
  by (simp add: async_def Let_def dict_def setitem_def)

text \<open>
  A registered function that calls \<^verbatim>\<open>sys.exit(1)\<close> raises \<^verbatim>\<open>SystemExit\<close>, which is not
  an instance of \<^verbatim>\<open>Exception\<close>: \<^verbatim>\<open>except Exception\<close> does not catch it, it leaves
  \<^verbatim>\<open>_proc_function\<close>, and the only event published is the start event.
\<close>

theorem proc_function_exit_counterexample:
  "low example_utils example_client (Some ''pkg'') ''low''
     = ([], Inl (Raised False ''SystemExit'' (Inr ''1'')))
   \<and> snd (proc_function example_utils example_client (Some ''pkg'') ''low'' (Str ''UNKNOWN'')
            ''salt/run/1'' ''1'' True)
     = Some (Raised False ''SystemExit'' (Inr ''1''))
   \<and> map snd (events (fst (proc_function example_utils example_client (Some ''pkg'') ''low''
                              (Str ''UNKNOWN'') ''salt/run/1'' ''1'' True)))
     = [''salt/run/1/new'']"
  by (simp add: example_low_exiting example_run_exiting)

text \<open>
  Claim C1, amended. For every worker run in which the invocation raises an exception
  that is an instance of \<^verbatim>\<open>Exception\<close> and whose \<^verbatim>\<open>str\<close> returns its message, no
  exception leaves \<^verbatim>\<open>_proc_function\<close>; with \<^verbatim>\<open>fire_event\<close> true the completion payload
  has \<^verbatim>\<open>success\<close> false and its \<^verbatim>\<open>return\<close> is a non-empty summary that contains the
  client kind, the function name, the name of the exception class and the exception
  message.
\<close>

theorem proc_function_failure:
  fixes su :: "('v, 'e) salt_utils"
  assumes "low su self fun low_data = (effects, Inl exc)"
    and "isinstance_Exception exc" and "str_exc exc = Inr msg"
  shows "snd (proc_function su self fun low_data user tag jid fire_event) = None
    \<and> (\<exists>start final summary.
         events (fst (proc_function su self fun low_data user tag jid True))
           = [(start, tagify su ''new'' Default (Given tag)),
              (final, tagify su ''ret'' Default (Given tag))]
         \<and> final ''success'' = Some (Bool False)
         \<and> final ''return'' = Some (Str summary)
         \<and> summary \<noteq> []
         \<and> (\<exists>pre post. summary = pre @ format_str (client self) @ post)
         \<and> (\<exists>pre post. summary = pre @ format_str fun @ post)
         \<and> (\<exists>pre post. summary = pre @ class_name exc @ post)
         \<and> (\<exists>pre post. summary = pre @ msg @ post))"
proof -
  define start where "start = [''fun'' \<mapsto> Str (format_str (client self) @ ''.'' @ format_str fun),
                  ''jid'' \<mapsto> Str jid, ''user'' \<mapsto> user]"
  define summary where "summary = ''Exception occurred in '' @ format_str (client self) @ '' ''
                             @ format_str fun @ '': '' @ class_name exc @ '': '' @ msg"
  define final where "final = start(''return'' \<mapsto> Str summary, ''success'' \<mapsto> Bool False,
                                   ''user'' \<mapsto> user)"
  note run = proc_function_caught [OF assms start_def, folded summary_def, folded final_def]
  have r0: "snd (proc_function su self fun low_data user tag jid fire_event) = None"
    by (simp add: run)
  have ev: "events (fst (proc_function su self fun low_data user tag jid True))
           = [(start, tagify su ''new'' Default (Given tag)),
              (final, tagify su ''ret'' Default (Given tag))]"
    by (simp add: run events_append events_effects)
  have s1: "final ''success'' = Some (Bool False)"
    and s2: "final ''return'' = Some (Str summary)"
    by (simp_all add: final_def)
  have n: "summary \<noteq> []"
    by (simp add: summary_def)
  have i1: "\<exists>pre post. summary = pre @ format_str (client self) @ post"
    unfolding summary_def by (rule exI [of _ "''Exception occurred in ''"]) (rule exI, rule refl)
  have i2: "\<exists>pre post. summary = pre @ format_str fun @ post"
    unfolding summary_def
    by (rule exI [of _ "''Exception occurred in '' @ format_str (client self) @ '' ''"],
        rule exI [of _ "'': '' @ class_name exc @ '': '' @ msg"]) simp
  have i3: "\<exists>pre post. summary = pre @ class_name exc @ post"
    unfolding summary_def
    by (rule exI [of _ "''Exception occurred in '' @ format_str (client self) @ '' ''
                        @ format_str fun @ '': ''"],
        rule exI [of _ "'': '' @ msg"]) simp
  have i4: "\<exists>pre post. summary = pre @ msg @ post"
    unfolding summary_def
    by (rule exI [of _ "''Exception occurred in '' @ format_str (client self) @ '' ''
                        @ format_str fun @ '': '' @ class_name exc @ '': ''"],
        rule exI [of _ "[]"]) simp
  show ?thesis
    by (intro conjI r0, rule exI [of _ start], rule exI [of _ final], rule exI [of _ summary])
       (intro conjI ev s1 s2 n i1 i2 i3 i4)
qed

text \<open>C1 at the example client, for the function that raises \<^verbatim>\<open>ValueError('bad value')\<close>.\<close>

theorem proc_function_failure_witness:
  "low example_utils example_client (Some ''pkg.list'') ''low''
     = ([''list''], Inl (Raised True ''ValueError'' (Inr ''bad value'')))
   \<and> isinstance_Exception (Raised True ''ValueError'' (Inr ''bad value''))
   \<and> str_exc (Raised True ''ValueError'' (Inr ''bad value'')) = Inr ''bad value''
   \<and> snd (proc_function example_utils example_client (Some ''pkg.list'') ''low''
            (Str ''UNKNOWN'') ''salt/run/1'' ''1'' True) = None
   \<and> (\<exists>start final summary.
         events (fst (proc_function example_utils example_client (Some ''pkg.list'') ''low''
                        (Str ''UNKNOWN'') ''salt/run/1'' ''1'' True))
           = [(start, tagify example_utils ''new'' Default (Given ''salt/run/1'')),
              (final, tagify example_utils ''ret'' Default (Given ''salt/run/1''))]
         \<and> final ''success'' = Some (Bool False)
         \<and> final ''return'' = Some (Str summary)
         \<and> summary \<noteq> []
         \<and> (\<exists>pre post. summary = pre @ format_str (client example_client) @ post)
         \<and> (\<exists>pre post. summary = pre @ format_str (Some ''pkg.list'') @ post)
         \<and> (\<exists>pre post. summary
                = pre @ class_name (Raised True ''ValueError'' (Inr ''bad value'')) @ post)
         \<and> (\<exists>pre post. summary = pre @ ''bad value'' @ post))
   \<and> map (\<lambda>e. (fst e ''success'', fst e ''return''))
         (events (fst (proc_function example_utils example_client (Some ''pkg.list'') ''low''
                         (Str ''UNKNOWN'') ''salt/run/1'' ''1'' True)))
     = [(None, None),
        (Some (Bool False),
         Some (Str ''Exception occurred in runner pkg.list: ValueError: bad value''))]"
proof -
  have i: "isinstance_Exception (Raised True ''ValueError'' (Inr ''bad value''))" by simp
  have s: "str_exc (Raised True ''ValueError'' (Inr ''bad value'')) = Inr ''bad value''" by simp
  note t = proc_function_failure [OF example_low_failing i s, where user = "Str ''UNKNOWN''"
      and tag = "''salt/run/1''" and jid = "''1''" and fire_event = True]
  have e: "map (\<lambda>e. (fst e ''success'', fst e ''return''))
         (events (fst (proc_function example_utils example_client (Some ''pkg.list'') ''low''
                         (Str ''UNKNOWN'') ''salt/run/1'' ''1'' True)))
     = [(None, None),
        (Some (Bool False),
         Some (Str ''Exception occurred in runner pkg.list: ValueError: bad value''))]"
    by (simp add: example_run_failing)
  show ?thesis
    by (intro conjI example_low_failing i s t [THEN conjunct1] t [THEN conjunct2] e)
qed






text \<open>
  Claim C9. \<^verbatim>\<open>async\<close> does not consult the registry: its result is the same for any
  registry, and for every function name, also an empty or unregistered one, it is the
  dictionary of the tag and the job id. The name is verified only in the worker: for
  a name that \<^verbatim>\<open>_verify_fun\<close> rejects, no exception leaves the worker, with
  \<^verbatim>\<open>fire_event\<close> true the run publishes the start event and a completion event with
  \<^verbatim>\<open>success\<close> false, and with \<^verbatim>\<open>fire_event\<close> false it publishes nothing.
\<close>

theorem async_no_verification:
  fixes su :: "('v, 'e) salt_utils"
  shows "async su (self\<lparr>functions := fs\<rparr>) now fun low_data user fire_event
           = async su self now fun low_data user fire_event
    \<and> snd (async su self now fun low_data user fire_event)
         = [''tag'' \<mapsto> tagify su (format_jid now) (Given (tag_prefix self)) Default,
            ''jid'' \<mapsto> format_jid now]
    \<and> (verify_fun self fun \<noteq> Inr () \<longrightarrow>
          snd (run su self (fst (async su self now fun low_data user fire_event))) = None
          \<and> (\<exists>start final.
                events (fst (run su self (fst (async su self now fun low_data user True))))
                  = [(start, tagify su ''new'' Default
                               (Given (tagify su (format_jid now) (Given (tag_prefix self)) Default))),
                     (final, tagify su ''ret'' Default
                               (Given (tagify su (format_jid now) (Given (tag_prefix self)) Default)))]
                \<and> final ''success'' = Some (Bool False))
          \<and> events (fst (run su self (fst (async su self now fun low_data user False)))) = [])"
proof (intro conjI impI)
  show "async su (self\<lparr>functions := fs\<rparr>) now fun low_data user fire_event
           = async su self now fun low_data user fire_event"
    by (simp add: async_result)
  show "snd (async su self now fun low_data user fire_event)
         = [''tag'' \<mapsto> tagify su (format_jid now) (Given (tag_prefix self)) Default,
            ''jid'' \<mapsto> format_jid now]"
    by (simp add: async_result)
next
  assume v: "verify_fun self fun \<noteq> Inr ()"
  let ?tag = "tagify su (format_jid now) (Given (tag_prefix self)) Default"
  let ?jid = "format_jid now"
  from low_unverified [OF v, of su low_data] obtain err
    where l: "low su self fun low_data = ([], Inl (CommandExecutionError err))" ..
  have i: "isinstance_Exception (CommandExecutionError err)"
    and m: "str_exc (CommandExecutionError err) = Inr err"
    by (simp_all add: CommandExecutionError_def)
  define start where "start = [''fun'' \<mapsto> Str (format_str (client self) @ ''.'' @ format_str fun),
                  ''jid'' \<mapsto> Str ?jid, ''user'' \<mapsto> user]"
  define final where "final =
      start(''return'' \<mapsto>
              Str (''Exception occurred in '' @ format_str (client self) @ '' ''
                   @ format_str fun @ '': '' @ class_name (CommandExecutionError err)
                   @ '': '' @ err),
            ''success'' \<mapsto> Bool False, ''user'' \<mapsto> user)"
  note pf = proc_function_caught [OF l i m start_def, where tag = ?tag, folded final_def]
  show "snd (run su self (fst (async su self now fun low_data user fire_event))) = None"
    by (simp add: async_result run_def pf)
  have ev: "events (fst (run su self (fst (async su self now fun low_data user True))))
                  = [(start, tagify su ''new'' Default (Given ?tag)),
                     (final, tagify su ''ret'' Default (Given ?tag))]"
    by (simp add: async_result run_def pf)
  have f: "final ''success'' = Some (Bool False)"
    by (simp add: final_def)
  show "\<exists>start final.
                events (fst (run su self (fst (async su self now fun low_data user True))))
                  = [(start, tagify su ''new'' Default (Given ?tag)),
                     (final, tagify su ''ret'' Default (Given ?tag))]
                \<and> final ''success'' = Some (Bool False)"
    by (rule exI [of _ start], rule exI [of _ final]) (intro conjI ev f)
  show "events (fst (run su self (fst (async su self now fun low_data user False)))) = []"
    by (simp add: async_result run_def pf)
qed

text \<open>C9 at the example client, for an unregistered name and for \<^verbatim>\<open>None\<close>.\<close>

theorem async_no_verification_witness:
  "verify_fun example_client (Some ''nonexistent'') \<noteq> Inr ()
   \<and> snd (async example_utils example_client example_now (Some ''nonexistent'') ''low''
            (Str ''UNKNOWN'') True)
     = [''tag'' \<mapsto> ''salt/run/20140309070559001234'', ''jid'' \<mapsto> ''20140309070559001234'']
   \<and> snd (run example_utils example_client
            (fst (async example_utils example_client example_now (Some ''nonexistent'') ''low''
                    (Str ''UNKNOWN'') True))) = None
   \<and> (\<exists>start final.
         events (fst (run example_utils example_client
                        (fst (async example_utils example_client example_now
                                (Some ''nonexistent'') ''low'' (Str ''UNKNOWN'') True))))
           = [(start, tagify example_utils ''new'' Default
                        (Given (tagify example_utils (format_jid example_now)
                                  (Given (tag_prefix example_client)) Default))),
              (final, tagify example_utils ''ret'' Default
                        (Given (tagify example_utils (format_jid example_now)
                                  (Given (tag_prefix example_client)) Default)))]
         \<and> final ''success'' = Some (Bool False))
   \<and> verify_fun example_client None \<noteq> Inr ()
   \<and> events (fst (run example_utils example_client
                    (fst (async example_utils example_client example_now None ''low''
                            (Str ''UNKNOWN'') False)))) = []"
proof -
  have v1: "verify_fun example_client (Some ''nonexistent'') \<noteq> Inr ()"
    and v2: "verify_fun example_client None \<noteq> Inr ()"
    by (simp_all add: verify_fun_def keys_def example_client_def)
  note t1 = async_no_verification [of example_utils _ example_client example_now
      "Some ''nonexistent''" "''low''" "Str ''UNKNOWN''" True, THEN conjunct2]
  note t2 = async_no_verification [of example_utils _ example_client example_now
      None "''low''" "Str ''UNKNOWN''" False, THEN conjunct2, THEN conjunct2]
  have tag: "tagify example_utils ''20140309070559001234'' (Given (tag_prefix example_client))
      Default = ''salt/run/20140309070559001234''"
    by (simp add: example_utils_def example_tagify_def example_client_def)
  have r: "snd (async example_utils example_client example_now (Some ''nonexistent'') ''low''
            (Str ''UNKNOWN'') True)
     = [''tag'' \<mapsto> ''salt/run/20140309070559001234'', ''jid'' \<mapsto> ''20140309070559001234'']"
    using t1 [THEN conjunct1] by (simp only: example_format_jid tag)
  note w1 = t1 [THEN conjunct2, THEN mp, OF v1]
  note w2 = t2 [THEN mp, OF v2]
  show ?thesis
    by (intro conjI v1 v2 r w1 [THEN conjunct1] w1 [THEN conjunct2, THEN conjunct1]
        w2 [THEN conjunct2, THEN conjunct2])
qed

end
